theory Spec2Isabelle
  imports Main "HOL-Library.Char_ord" "HOL-Library.List_Lexorder"
begin

section \<open>Data model of the dispatch engine (package gin, lib/app.go, lib/category.go)\<close>

text \<open>
  Go errors are opaque interface values. The model keeps one constructor for the error
  value declared in lib/app.go (\<open>errInvalidActionType\<close>), one for each error kind of
  the spec's taxonomy, and one for errors returned by user code.
\<close>

datatype error =
    errInvalidActionType
  | FlagParseError string
  | RequiredFlagMissing "string list"
  | NormalizeError string
  | FlagSetError string
  | UserError string

text \<open>
  A call into user code either returns or panics. Go's run-time panics (index out of
  range, slice bounds out of range) end a call the same way.
\<close>

datatype 'a outcome = Returns 'a | Panicked

text \<open>
  Modelled from the spec: the Flag interface and its four variants are declared in a file
  that is not under src/. main.go builds them with the fields Name, Value, EnvVar, Usage;
  the completion code reads Hidden of a BoolFlag; the spec adds required-ness. Go compares
  two Flag values with \<open>==\<close> structurally, which is HOL equality here.
\<close>

record FlagSpec =
  FlagName :: string
  EnvVar :: string
  FlagUsage :: string
  FlagHidden :: bool
  Required :: bool

datatype Flag =
    StringFlag FlagSpec string
  | IntFlag FlagSpec int
  | BoolFlag FlagSpec
  | StringSliceFlag FlagSpec "string list"

fun GetSpec :: "Flag \<Rightarrow> FlagSpec" where
  "GetSpec (StringFlag s _) = s"
| "GetSpec (IntFlag s _) = s"
| "GetSpec (BoolFlag s) = s"
| "GetSpec (StringSliceFlag s _) = s"

definition GetName :: "Flag \<Rightarrow> string" where
  "GetName f = FlagName (GetSpec f)"

definition zeroFlagSpec :: FlagSpec where
  "zeroFlagSpec = \<lparr>FlagName = [], EnvVar = [], FlagUsage = [], FlagHidden = False, Required = False\<rparr>"

text \<open>
  Modelled from the spec: the built-in flags are package variables of the missing flag
  file. The spec names them: \<open>-h\<close>/\<open>--help\<close>, \<open>--version\<close>/\<open>-v\<close>, and the
  completion flag with the default name \<open>generate-bash-completion\<close>.
\<close>

definition HelpFlag :: Flag where
  "HelpFlag = BoolFlag (zeroFlagSpec\<lparr>FlagName := ''help, h'', FlagUsage := ''show help''\<rparr>)"

definition VersionFlag :: Flag where
  "VersionFlag = BoolFlag (zeroFlagSpec\<lparr>FlagName := ''version, v'', FlagUsage := ''print the version''\<rparr>)"

definition BashCompletionFlag :: Flag where
  "BashCompletionFlag = BoolFlag (zeroFlagSpec\<lparr>FlagName := ''generate-bash-completion'', FlagHidden := True\<rparr>)"

text \<open>
  Modelled from the spec: flag.FlagSet belongs to the Go standard library. The model keeps
  what the dispatch code reads from it: the names that received a value (from a CLI token
  or from the environment) and the positional arguments left after parsing.
\<close>

record FlagSet =
  fs_values :: "(string \<times> string) list"
  fs_args :: "string list"

text \<open>
  Modelled from the spec: the execution context (its declaration is not under src/) holds
  the parsed flag set of its level, the parent context and the completion marker. The
  source's back pointer to the App is left out, since the App's hooks take a context;
  functions of the source that read \<open>c.App\<close> take the App as an argument here.
\<close>

datatype Context = Context (ctx_flagSet: FlagSet) (parentContext: "Context option") (shellComplete: bool)

definition Args :: "Context \<Rightarrow> string list" where
  "Args c = fs_args (ctx_flagSet c)"

definition Present :: "string list \<Rightarrow> bool" where
  "Present args = (length args \<noteq> 0)"

definition First :: "string list \<Rightarrow> string" where
  "First args = (case args of [] \<Rightarrow> [] | x # _ \<Rightarrow> x)"


text \<open>
  The Action field is an \<open>interface{}\<close>; handleAction accepts three dynamic types and
  rejects every other value. A nil interface is its own case.
\<close>

datatype Action =
    NilAction
  | ActionFunc "Context \<Rightarrow> error option outcome"
  | FuncContextError "Context \<Rightarrow> error option outcome"
  | FuncContext "Context \<Rightarrow> unit outcome"
  | OtherValue

text \<open>
  Modelled from the spec: the Command struct is declared in a file that is not under src/.
  The fields are those the code under src/ reads or writes (helpCommand's literal, setup,
  AddCommand, the completion printer).
\<close>

record Command =
  Name :: string
  Aliases :: "string list"
  Usage :: string
  ArgsUsage :: string
  Category :: string
  HelpName :: string
  Hidden :: bool
  CommandAction :: Action

datatype CommandCategory = CommandCategory (cat_Name: string) (cat_Commands: "Command list")

datatype Writer = Stdout | OtherWriter nat

text \<open>
  The App struct (lib/app.go, lines 20-96), with the fields that setup and dispatch read or
  write. Name and HelpName are \<open>AppName\<close> and \<open>AppHelpName\<close> here (Command
  has fields of the same names), and Before is \<open>BeforeHook\<close> (the code generator
  makes, for a record field of that name, code that its compiler refuses).
\<close>

record author =
  author_Name :: string
  author_Email :: string

record App =
  AppName :: string
  AppHelpName :: string
  Version :: string
  Commands :: "Command list"
  Flags :: "Flag list"
  EnableBashCompletion :: bool
  HideHelp :: bool
  HideVersion :: bool
  categories :: "CommandCategory list"
  BashComplete :: "(Context \<Rightarrow> string list) option"
  BeforeHook :: "(Context \<Rightarrow> error option outcome) option"
  After :: "(Context \<Rightarrow> error option outcome) option"
  Action :: Action
  OnUsageError :: "(Context \<Rightarrow> error \<Rightarrow> bool \<Rightarrow> error option) option"
  Authors :: "author list"
  Author :: string
  Email :: string
  Writer :: "Writer option"
  ExitErrHandler :: "(Context \<Rightarrow> error option \<Rightarrow> unit) option"
  Metadata :: "(string \<times> string) list option"
  UseShortOptionHandling :: bool
  didSetup :: bool

section \<open>Commands and categories\<close>

text \<open>
  helpCommand (part_001, lines 11-24). Its Action has the signature
  \<open>func(*Context) error\<close> and returns nil on both of its paths.
\<close>

definition helpCommand :: Command where
  "helpCommand = \<lparr>Name = ''help'', Aliases = [''h''],
     Usage = ''Shows a list of commands or help for one command'',
     ArgsUsage = ''[command]'', Category = [], HelpName = [], Hidden = False,
     CommandAction = FuncContextError (\<lambda>c. if Present (Args c) then Returns None else Returns None)\<rparr>"

text \<open>
  Modelled from the spec: Command.hasName is not under src/. The spec resolves a command
  "by primary name or alias", with no fuzzy or prefix matching.
\<close>

definition Names :: "Command \<Rightarrow> string list" where
  "Names c = Name c # Aliases c"

definition hasName :: "Command \<Rightarrow> string \<Rightarrow> bool" where
  "hasName c name = (name \<in> set (Names c))"

text \<open>App.command (lib/app.go, lines 371-379): the first command of the list that has the name.\<close>

fun command_loop :: "Command list \<Rightarrow> string \<Rightarrow> Command option" where
  "command_loop [] name = None"
| "command_loop (c # cs) name = (if hasName c name then Some c else command_loop cs name)"

definition command :: "App \<Rightarrow> string \<Rightarrow> Command option" where
  "command a name = command_loop (Commands a) name"

text \<open>App.hasFlag and App.appendFlag (lib/app.go, lines 421-435).\<close>

fun hasFlag_loop :: "Flag list \<Rightarrow> Flag \<Rightarrow> bool" where
  "hasFlag_loop [] flag = False"
| "hasFlag_loop (f # fs) flag = (if flag = f then True else hasFlag_loop fs flag)"

definition hasFlag :: "App \<Rightarrow> Flag \<Rightarrow> bool" where
  "hasFlag a flag = hasFlag_loop (Flags a) flag"

definition appendFlag :: "App \<Rightarrow> Flag \<Rightarrow> App" where
  "appendFlag a flag = (if \<not> hasFlag a flag then a\<lparr>Flags := Flags a @ [flag]\<rparr> else a)"

text \<open>
  CommandCategories.AddCommand (lib/category.go, lines 25-33). The slice holds pointers, so
  the append inside the loop changes the category in place; the loop stops at the first
  category of that name, and a new category goes to the end.
\<close>

fun AddCommand :: "CommandCategory list \<Rightarrow> string \<Rightarrow> Command \<Rightarrow> CommandCategory list" where
  "AddCommand [] category cmd = [CommandCategory category [cmd]]"
| "AddCommand (cc # c) category cmd =
     (if cat_Name cc = category
      then CommandCategory (cat_Name cc) (cat_Commands cc @ [cmd]) # c
      else cc # AddCommand c category cmd)"

text \<open>The loop of setup over the commands (lib/app.go, lines 161-164).\<close>

fun addCommands :: "CommandCategory list \<Rightarrow> Command list \<Rightarrow> CommandCategory list" where
  "addCommands cats [] = cats"
| "addCommands cats (c # cs) = addCommands (AddCommand cats (Category c) c) cs"

text \<open>
  Modelled from the spec: lexicographicLess, which CommandCategories.Less calls
  (lib/category.go, line 13), is not under src/; the spec says the index is
  lexicographically ordered by category name, which is the order of strings here.
  sort.Sort is the Go standard library's sort under Less; on categories of distinct names
  every sort gives the same list.
\<close>

definition lexicographicLess :: "string \<Rightarrow> string \<Rightarrow> bool" where
  "lexicographicLess i j = (i < j)"

definition Less :: "CommandCategory \<Rightarrow> CommandCategory \<Rightarrow> bool" where
  "Less ci cj = lexicographicLess (cat_Name ci) (cat_Name cj)"

fun sort_insert :: "CommandCategory \<Rightarrow> CommandCategory list \<Rightarrow> CommandCategory list" where
  "sort_insert x [] = [x]"
| "sort_insert x (y # ys) = (if Less y x then y # sort_insert x ys else x # y # ys)"

fun sort_Sort :: "CommandCategory list \<Rightarrow> CommandCategory list" where
  "sort_Sort [] = []"
| "sort_Sort (x # xs) = sort_insert x (sort_Sort xs)"

section \<open>App.setup (lib/app.go, lines 126-174)\<close>

text \<open>The method is named \<open>App_setup\<close>, since \<open>setup\<close> is a keyword of Isabelle.\<close>

definition stampHelpName :: "string \<Rightarrow> Command \<Rightarrow> Command" where
  "stampHelpName appHelpName c =
     (if HelpName c = [] then c\<lparr>HelpName := appHelpName @ '' '' @ Name c\<rparr> else c)"

text \<open>The statements of the method's body, in the order of the source.\<close>

definition setup_authors :: "App \<Rightarrow> App" where
  "setup_authors a =
     (if Author a \<noteq> [] \<or> Email a \<noteq> []
      then a\<lparr>Authors := Authors a @ [\<lparr>author_Name = Author a, author_Email = Email a\<rparr>]\<rparr>
      else a)"

definition setup_commands :: "App \<Rightarrow> App" where
  "setup_commands a = a\<lparr>Commands := map (stampHelpName (AppHelpName a)) (Commands a)\<rparr>"

definition setup_help :: "App \<Rightarrow> App" where
  "setup_help a =
     (if command a (Name helpCommand) = None \<and> \<not> HideHelp a
      then (let a' = a\<lparr>Commands := Commands a @ [helpCommand]\<rparr>
            in if HelpFlag \<noteq> BoolFlag zeroFlagSpec then appendFlag a' HelpFlag else a')
      else a)"

definition setup_version :: "App \<Rightarrow> App" where
  "setup_version a =
     (let a' = (if Version a = [] then a\<lparr>HideVersion := True\<rparr> else a)
      in if \<not> HideVersion a' then appendFlag a' VersionFlag else a')"

definition setup_categories :: "App \<Rightarrow> App" where
  "setup_categories a = a\<lparr>categories := sort_Sort (addCommands [] (Commands a))\<rparr>"

definition setup_sinks :: "App \<Rightarrow> App" where
  "setup_sinks a =
     (let a' = (if Metadata a = None then a\<lparr>Metadata := Some []\<rparr> else a)
      in if Writer a' = None then a'\<lparr>Writer := Some Stdout\<rparr> else a')"

definition App_setup :: "App \<Rightarrow> App" where
  "App_setup a =
    (if didSetup a then a
     else setup_sinks (setup_categories (setup_version (setup_help
            (setup_commands (setup_authors (a\<lparr>didSetup := True\<rparr>)))))))"

section \<open>Collaborators that are not under src/\<close>

text \<open>
  Run and runAsSubcommand call functions of files that are not under src/: flagSet,
  parseIter, normalizeFlags and Command.run. They are parameters of the model: a value of
  \<open>ext\<close> gives the result of each call. parseIter and normalizeFlags write into the
  flag set they are given, so they return the new flag set with their error.
\<close>

record ext =
  x_flagSet :: "string \<Rightarrow> Flag list \<Rightarrow> error + FlagSet"
  x_parseIter :: "FlagSet \<Rightarrow> App \<Rightarrow> string list \<Rightarrow> bool \<Rightarrow> error option \<times> FlagSet"
  x_normalizeFlags :: "Flag list \<Rightarrow> FlagSet \<Rightarrow> error option \<times> FlagSet"
  x_run :: "Command \<Rightarrow> Context \<Rightarrow> error option outcome"

text \<open>
  Modelled from the spec: NewContext is not under src/. A nested context inherits the
  completion marker of its parent; a root context starts without it.
\<close>

definition NewContext :: "FlagSet \<Rightarrow> Context option \<Rightarrow> Context" where
  "NewContext fs parentCtx =
     Context fs parentCtx (case parentCtx of None \<Rightarrow> False | Some p \<Rightarrow> shellComplete p)"

definition set_shellComplete :: "Context \<Rightarrow> bool \<Rightarrow> Context" where
  "set_shellComplete c b = Context (ctx_flagSet c) (parentContext c) b"

text \<open>strings.Split on a comma and strings.TrimSpace, as part_001 uses them on flag names.\<close>

fun Split :: "string \<Rightarrow> string list" where
  "Split [] = [[]]"
| "Split (c # cs) =
     (if c = CHR '','' then [] # Split cs
      else (case Split cs of [] \<Rightarrow> [[c]] | w # ws \<Rightarrow> (c # w) # ws))"

definition isSpace :: "char \<Rightarrow> bool" where
  "isSpace c = (c = CHR '' '' \<or> c = CHR 0x09 \<or> c = CHR 0x0A \<or> c = CHR 0x0B \<or> c = CHR 0x0C \<or> c = CHR 0x0D)"

definition TrimSpace :: "string \<Rightarrow> string" where
  "TrimSpace s = rev (dropWhile isSpace (rev (dropWhile isSpace s)))"

definition flagKeys :: "Flag \<Rightarrow> string list" where
  "flagKeys f = map TrimSpace (Split (GetName f))"

text \<open>
  Modelled from the spec: Context.IsSet, Context.Bool and checkRequiredFlags are not under
  src/. The spec: the required-flag check is a pass after parsing; every specification
  marked required must have an entry in the parsed values (from a CLI token or from the
  environment), else the check fails with a RequiredFlagMissing error that identifies the
  flag.
\<close>

definition IsSet :: "Context \<Rightarrow> string \<Rightarrow> bool" where
  "IsSet c key = (key \<in> set (map fst (fs_values (ctx_flagSet c))))"


definition flagMissing :: "Context \<Rightarrow> Flag \<Rightarrow> bool" where
  "flagMissing c f = (Required (GetSpec f) \<and> \<not> list_ex (IsSet c) (flagKeys f))"

definition checkRequiredFlags :: "Flag list \<Rightarrow> Context \<Rightarrow> error option" where
  "checkRequiredFlags flags c =
     (let missingFlags = map GetName (filter (flagMissing c) flags)
      in if missingFlags \<noteq> [] then Some (RequiredFlagMissing missingFlags) else None)"

text \<open>The text of an error (the method Error of Go's error interface).\<close>

fun Error :: "error \<Rightarrow> string" where
  "Error errInvalidActionType = ''ERROR invalid Action type. ''"
| "Error (FlagParseError s) = s"
| "Error (RequiredFlagMissing names) = concat names"
| "Error (NormalizeError s) = s"
| "Error (FlagSetError s) = s"
| "Error (UserError s) = s"

section \<open>Dispatch: Run and runAsSubcommand (lib/app.go), completion checks (part_001)\<close>

text \<open>
  A dispatch call returns its result (or panics), the calls it made into user code and its
  writes to the output sink, in order, and the App as the call leaves it. Hooks and
  handlers are taken to change nothing of the App.
\<close>

datatype event =
    EvBefore
  | EvAfter
  | EvAction
  | EvCommandRun Command
  | EvOnUsageError error bool
  | EvExitErrHandler "error option"
  | EvBashComplete "string list"
  | EvWrite Writer string

type_synonym result = "error option outcome \<times> event list"

text \<open>checkShellCompleteFlag (part_001, lines 157-170). Indexing an empty slice panics.\<close>

definition checkShellCompleteFlag :: "App \<Rightarrow> string list \<Rightarrow> (bool \<times> string list) outcome" where
  "checkShellCompleteFlag a arguments =
     (if \<not> EnableBashCompletion a then Returns (False, arguments)
      else if arguments = [] then Panicked
      else
        let pos = length arguments - 1;
            lastArg = arguments ! pos
        in if lastArg \<noteq> ''--'' @ GetName BashCompletionFlag then Returns (False, arguments)
           else Returns (True, take pos arguments))"

text \<open>showCompletions and checkCompletions (part_001, lines 129-134 and 172-187).\<close>

definition showCompletions :: "App \<Rightarrow> Context \<Rightarrow> event list" where
  "showCompletions a c = (case BashComplete a of None \<Rightarrow> [] | Some f \<Rightarrow> [EvBashComplete (f c)])"

definition checkCompletions :: "App \<Rightarrow> Context \<Rightarrow> bool \<times> event list" where
  "checkCompletions a c =
     (if \<not> shellComplete c then (False, [])
      else if Present (Args c) \<and> command a (First (Args c)) \<noteq> None then (False, [])
      else (True, showCompletions a c))"


text \<open>App.handleExitCoder (lib/app.go, lines 437-441).\<close>

definition handleExitCoder :: "App \<Rightarrow> Context \<Rightarrow> error option \<Rightarrow> event list" where
  "handleExitCoder a c err = (case ExitErrHandler a of None \<Rightarrow> [] | Some h \<Rightarrow> [EvExitErrHandler err])"

text \<open>handleAction (lib/app.go, lines 462-474).\<close>

fun handleAction :: "Action \<Rightarrow> Context \<Rightarrow> result" where
  "handleAction (ActionFunc f) c = (f c, [EvAction])"
| "handleAction (FuncContextError f) c = (f c, [EvAction])"
| "handleAction (FuncContext f) c =
     ((case f c of Returns _ \<Rightarrow> Returns None | Panicked \<Rightarrow> Panicked), [EvAction])"
| "handleAction NilAction c = (Returns (Some errInvalidActionType), [])"
| "handleAction OtherValue c = (Returns (Some errInvalidActionType), [])"

text \<open>A write to \<open>a.Writer\<close>; fmt.Fprintln on a nil io.Writer panics.\<close>

definition Fprint :: "App \<Rightarrow> string \<Rightarrow> error option \<Rightarrow> result" where
  "Fprint a s err = (case Writer a of None \<Rightarrow> (Panicked, []) | Some w \<Rightarrow> (Returns err, [EvWrite w s]))"

definition newline :: string where
  "newline = [CHR 0x0A]"

text \<open>
  Run, lines 195-228: everything before the After hook is registered. The result is either
  the return of Run on one of its early exits (\<open>Inl\<close>) or the context with which
  dispatch goes on (\<open>Inr\<close>). The App has been through setup.
\<close>

definition Run_usageError :: "App \<Rightarrow> Context \<Rightarrow> error \<Rightarrow> bool \<Rightarrow> result" where
  "Run_usageError a context err isSubcommand =
     (case OnUsageError a of
        Some h \<Rightarrow>
          (let err' = h context err isSubcommand
           in (Returns err', EvOnUsageError err isSubcommand # handleExitCoder a context err'))
      | None \<Rightarrow> Fprint a (''Incorrect Usage. '' @ Error err @ newline @ newline) (Some err))"

definition Run_checks :: "App \<Rightarrow> FlagSet \<Rightarrow> bool \<Rightarrow> error option \<Rightarrow> error option \<Rightarrow> result + Context" where
  "Run_checks a fs complete err nerr =
     (let context = NewContext fs None in
      case nerr of
        Some ne \<Rightarrow> Inl (Fprint a (Error ne @ newline) (Some ne))
      | None \<Rightarrow>
          (let context = set_shellComplete context complete in
           if fst (checkCompletions a context) then Inl (Returns None, snd (checkCompletions a context))
           else (case err of
                   Some e \<Rightarrow> Inl (Run_usageError a context e False)
                 | None \<Rightarrow>
                     (case checkRequiredFlags (Flags a) context of
                        Some cerr \<Rightarrow> Inl (Returns (Some cerr), [])
                      | None \<Rightarrow> Inr context))))"

definition Run_front :: "ext \<Rightarrow> App \<Rightarrow> string list \<Rightarrow> result + Context" where
  "Run_front x a arguments =
     (case checkShellCompleteFlag a arguments of
        Panicked \<Rightarrow> Inl (Panicked, [])
      | Returns (complete, arguments') \<Rightarrow>
          (case x_flagSet x (AppName a) (Flags a) of
             Inl err \<Rightarrow> Inl (Returns (Some err), [])
           | Inr fs \<Rightarrow>
               (case arguments' of
                  [] \<Rightarrow> Inl (Panicked, [])
                | _ # rest \<Rightarrow>
                    (let (err, fs1) = x_parseIter x fs a rest complete;
                         (nerr, fs2) = x_normalizeFlags x (Flags a) fs1
                     in Run_checks a fs2 complete err nerr))))"

text \<open>
  Run, lines 240-266: the Before hook, then the matched command or the default Action.
  The result comes with the App, whose Action the code sets when it is nil.
\<close>

definition Run_action :: "App \<Rightarrow> Context \<Rightarrow> result \<times> App" where
  "Run_action a context =
     (let a' = (case Action a of NilAction \<Rightarrow> a\<lparr>Action := CommandAction helpCommand\<rparr> | _ \<Rightarrow> a);
          r = handleAction (Action a') context
      in (case fst r of
            Panicked \<Rightarrow> ((Panicked, snd r), a')
          | Returns err \<Rightarrow> ((Returns err, snd r @ handleExitCoder a' context err), a')))"

definition Run_command :: "ext \<Rightarrow> App \<Rightarrow> Context \<Rightarrow> (result \<times> App) option" where
  "Run_command x a context =
     (let args = Args context in
      if Present args
      then (case command a (First args) of
              Some c \<Rightarrow> Some ((x_run x c context, [EvCommandRun c]), a)
            | None \<Rightarrow> None)
      else None)"

definition Run_dispatch :: "ext \<Rightarrow> App \<Rightarrow> Context \<Rightarrow> result \<times> App" where
  "Run_dispatch x a context =
     (let bres = (case BeforeHook a of None \<Rightarrow> (Returns None, []) | Some b \<Rightarrow> (b context, [EvBefore]))
      in case fst bres of
           Panicked \<Rightarrow> ((Panicked, snd bres), a)
         | Returns (Some beforeErr) \<Rightarrow>
             ((Returns (Some beforeErr), snd bres @ handleExitCoder a context (Some beforeErr)), a)
         | Returns None \<Rightarrow>
             (let (r, a') = (case Run_command x a context of
                               Some ra \<Rightarrow> ra
                             | None \<Rightarrow> Run_action a context)
              in ((fst r, snd bres @ snd r), a')))"

text \<open>
  The deferred call of Run, lines 230-238. It runs when the rest of Run returns or panics;
  its error becomes the result only when the result so far is nil; a panic goes on after
  it.
\<close>

definition Run_deferred :: "App \<Rightarrow> Context \<Rightarrow> result \<Rightarrow> result" where
  "Run_deferred a context r =
     (case After a of
        None \<Rightarrow> r
      | Some af \<Rightarrow>
          (case af context of
             Panicked \<Rightarrow> (Panicked, snd r @ [EvAfter])
           | Returns afterErr \<Rightarrow>
               (case fst r of
                  Panicked \<Rightarrow> (Panicked, snd r @ [EvAfter])
                | Returns err \<Rightarrow>
                    (Returns (if afterErr \<noteq> None \<and> err = None then afterErr else err),
                     snd r @ [EvAfter]))))"

definition Run :: "ext \<Rightarrow> App \<Rightarrow> string list \<Rightarrow> result \<times> App" where
  "Run x a arguments =
     (let a1 = App_setup a in
      case Run_front x a1 arguments of
        Inl r \<Rightarrow> (r, a1)
      | Inr context \<Rightarrow>
          (let (r, a2) = Run_dispatch x a1 context
           in (Run_deferred a1 context r, a2)))"








section \<open>Reference functions and example values\<close>

text \<open>
  The order of first occurrence: each name is kept where it is first seen. It is the
  reference for the order in which the loop of setup creates the categories.
\<close>

fun firstOcc :: "string list \<Rightarrow> string list \<Rightarrow> string list" where
  "firstOcc seen [] = seen"
| "firstOcc seen (x # xs) = (if x \<in> set seen then firstOcc seen xs else firstOcc (seen @ [x]) xs)"

text \<open>The zero value \<open>App{}\<close> of Go, and an App with two commands that share a name.\<close>

definition zeroApp :: App where
  "zeroApp = \<lparr>AppName = [], AppHelpName = [], Version = [], Commands = [], Flags = [],
     EnableBashCompletion = False, HideHelp = False, HideVersion = False, categories = [],
     BashComplete = None, BeforeHook = None, After = None, Action = NilAction, OnUsageError = None,
     Authors = [], Author = [], Email = [], Writer = None, ExitErrHandler = None,
     Metadata = None, UseShortOptionHandling = False, didSetup = False\<rparr>"

definition zeroCommand :: Command where
  "zeroCommand = \<lparr>Name = [], Aliases = [], Usage = [], ArgsUsage = [], Category = [],
     HelpName = [], Hidden = False, CommandAction = NilAction\<rparr>"

definition buildCommand :: Command where
  "buildCommand = zeroCommand\<lparr>Name := ''build'', Aliases := [''run''], Category := ''ops''\<rparr>"

definition runCommand :: Command where
  "runCommand = zeroCommand\<lparr>Name := ''run'', Category := ''dev''\<rparr>"

definition testCommand :: Command where
  "testCommand = zeroCommand\<lparr>Name := ''test'', Category := ''ops''\<rparr>"

definition exampleApp :: App where
  "exampleApp = zeroApp\<lparr>AppName := ''gin'', AppHelpName := ''gin'',
     Commands := [buildCommand, runCommand, testCommand]\<rparr>"

text \<open>The events that are calls of a hook, of the Action or of a command.\<close>

fun hook_event :: "event \<Rightarrow> bool" where
  "hook_event EvBefore = True"
| "hook_event EvAfter = True"
| "hook_event EvAction = True"
| "hook_event (EvCommandRun c) = True"
| "hook_event (EvOnUsageError e b) = False"
| "hook_event (EvExitErrHandler e) = False"
| "hook_event (EvBashComplete out) = False"
| "hook_event (EvWrite w s) = False"

text \<open>The Before hook is absent or returns nil, and the events of its call.\<close>

definition Before_passes :: "App \<Rightarrow> Context \<Rightarrow> bool" where
  "Before_passes a c = (case BeforeHook a of None \<Rightarrow> True | Some b \<Rightarrow> (case b c of Returns None \<Rightarrow> True | _ \<Rightarrow> False))"

definition Before_events :: "App \<Rightarrow> event list" where
  "Before_events a = (case BeforeHook a of None \<Rightarrow> [] | Some b \<Rightarrow> [EvBefore])"

text \<open>The Action that Run calls: the help command's Action when the field is nil.\<close>

definition Run_Action_of :: "App \<Rightarrow> Action" where
  "Run_Action_of a = (case Action a of NilAction \<Rightarrow> CommandAction helpCommand | act \<Rightarrow> act)"

text \<open>
  Collaborators for the examples: a flag set that starts empty, a parser that takes every
  token as a positional argument (the App declares no flag that the tokens name, and no
  token begins with a dash), a normalization that succeeds, and commands that return nil.
\<close>

definition emptyFlagSet :: FlagSet where
  "emptyFlagSet = \<lparr>fs_values = [], fs_args = []\<rparr>"

definition plainExt :: ext where
  "plainExt = \<lparr>x_flagSet = (\<lambda>name flags. Inr emptyFlagSet),
     x_parseIter = (\<lambda>fs a args complete. (None, fs\<lparr>fs_args := args\<rparr>)),
     x_normalizeFlags = (\<lambda>flags fs. (None, fs)),
     x_run = (\<lambda>c context. Returns None)\<rparr>"

text \<open>Collaborators whose normalization, parsing or flag set construction fails.\<close>

definition normFailExt :: ext where
  "normFailExt = plainExt\<lparr>x_normalizeFlags := (\<lambda>flags fs. (Some (NormalizeError ''cannot use two forms of the same flag''), fs))\<rparr>"

definition parseFailExt :: ext where
  "parseFailExt = plainExt\<lparr>x_parseIter := (\<lambda>fs a args complete. (Some (FlagParseError ''flag provided but not defined: -x''), fs))\<rparr>"

definition flagSetFailExt :: ext where
  "flagSetFailExt = plainExt\<lparr>x_flagSet := (\<lambda>name flags. Inl (FlagSetError ''could not parse the environment value''))\<rparr>"

text \<open>Apps with hooks that fail, with a required flag, and in completion mode.\<close>

definition hookApp :: App where
  "hookApp = zeroApp\<lparr>AppName := ''gin'', AppHelpName := ''gin'',
     BeforeHook := Some (\<lambda>c. Returns None),
     After := Some (\<lambda>c. Returns (Some (UserError ''after failed''))),
     Action := ActionFunc (\<lambda>c. Returns (Some (UserError ''action failed'')))\<rparr>"

definition okActionApp :: App where
  "okActionApp = hookApp\<lparr>Action := ActionFunc (\<lambda>c. Returns None)\<rparr>"

definition nameFlag :: Flag where
  "nameFlag = StringFlag (zeroFlagSpec\<lparr>FlagName := ''name, n'', Required := True\<rparr>) []"

definition requiredApp :: App where
  "requiredApp = hookApp\<lparr>Flags := [nameFlag]\<rparr>"

definition completionApp :: App where
  "completionApp = hookApp\<lparr>EnableBashCompletion := True,
     Commands := [buildCommand],
     BashComplete := Some (\<lambda>c. [''build'', ''run''])\<rparr>"

definition requiredCompletionApp :: App where
  "requiredCompletionApp = completionApp\<lparr>Flags := [nameFlag]\<rparr>"

definition usageApp :: App where
  "usageApp = hookApp\<lparr>OnUsageError := Some (\<lambda>c err isSubcommand. Some (UserError ''usage''))\<rparr>"

definition rootContext :: Context where
  "rootContext = Context (emptyFlagSet\<lparr>fs_args := [''build'', ''x'']\<rparr>) None False"

section \<open>Properties of setup, of command resolution and of the category index\<close>

lemma didSetup_steps [simp]:
  "didSetup (setup_authors a) = didSetup a"
  "didSetup (setup_commands a) = didSetup a"
  "didSetup (setup_help a) = didSetup a"
  "didSetup (setup_version a) = didSetup a"
  "didSetup (setup_categories a) = didSetup a"
  "didSetup (setup_sinks a) = didSetup a"
  by (simp_all add: setup_authors_def setup_commands_def setup_help_def setup_version_def
      setup_categories_def setup_sinks_def appendFlag_def Let_def)

lemma didSetup_setup: "didSetup (App_setup a)"
  by (simp add: App_setup_def)

text \<open>
  Claim C6. setup is idempotent: a second call returns the App of the first call unchanged,
  so the Command list, the Flag list and the category index are those of one call.
\<close>

theorem setup_idempotent:
  "App_setup (App_setup a) = App_setup a
   \<and> Commands (App_setup (App_setup a)) = Commands (App_setup a)
   \<and> Flags (App_setup (App_setup a)) = Flags (App_setup a)
   \<and> categories (App_setup (App_setup a)) = categories (App_setup a)"
proof -
  have "App_setup (App_setup a) = App_setup a"
    using didSetup_setup [of a] by (subst App_setup_def) simp
  then show ?thesis by simp
qed

subsection \<open>Command resolution\<close>

lemma command_loop_None: "command_loop cs name = None \<longleftrightarrow> (\<forall>c\<in>set cs. \<not> hasName c name)"
  by (induction cs) auto

lemma command_loop_Some:
  "command_loop cs name = Some c \<Longrightarrow>
     \<exists>pre post. cs = pre @ c # post \<and> hasName c name \<and> (\<forall>d\<in>set pre. \<not> hasName d name)"
proof (induction cs)
  case Nil
  then show ?case by simp
next
  case (Cons x xs)
  show ?case
  proof (cases "hasName x name")
    case True
    with Cons.prems have "x = c" by simp
    with True have "x # xs = [] @ c # xs \<and> hasName c name \<and> (\<forall>d\<in>set []. \<not> hasName d name)" by simp
    then show ?thesis by blast
  next
    case False
    with Cons.prems have "command_loop xs name = Some c" by simp
    from Cons.IH [OF this] obtain pre post where
      "xs = pre @ c # post" "hasName c name" "\<forall>d\<in>set pre. \<not> hasName d name" by blast
    with False have "x # xs = (x # pre) @ c # post \<and> hasName c name \<and> (\<forall>d\<in>set (x # pre). \<not> hasName d name)"
      by simp
    then show ?thesis by blast
  qed
qed

text \<open>
  Claim C5, as the code has it: command resolution is one pass over the Command list in
  declaration order, and the first command whose primary name or one of whose aliases
  equals the queried name is the result; no command before it has the name, and the result
  is nil exactly when no command has it. There is no separate pass for primary names.
\<close>

theorem command_first_match:
  "(case command a name of
      None \<Rightarrow> \<forall>c\<in>set (Commands a). name \<noteq> Name c \<and> name \<notin> set (Aliases c)
    | Some c \<Rightarrow> \<exists>pre post. Commands a = pre @ c # post
          \<and> (name = Name c \<or> name \<in> set (Aliases c))
          \<and> (\<forall>d\<in>set pre. name \<noteq> Name d \<and> name \<notin> set (Aliases d)))"
proof (cases "command a name")
  case None
  then have "\<forall>c\<in>set (Commands a). \<not> hasName c name"
    by (simp add: command_def command_loop_None)
  with None show ?thesis by (simp add: hasName_def Names_def)
next
  case (Some c)
  then have "command_loop (Commands a) name = Some c" by (simp add: command_def)
  from command_loop_Some [OF this] Some show ?thesis
    by (simp add: hasName_def Names_def)
qed

lemma command_exampleApp_run: "command exampleApp ''run'' = Some buildCommand"
  by (simp add: command_def exampleApp_def zeroApp_def hasName_def Names_def
      buildCommand_def zeroCommand_def)

theorem command_first_match_witness:
  "\<exists>pre post. Commands exampleApp = pre @ buildCommand # post
      \<and> (''run'' = Name buildCommand \<or> ''run'' \<in> set (Aliases buildCommand))
      \<and> (\<forall>d\<in>set pre. ''run'' \<noteq> Name d \<and> ''run'' \<notin> set (Aliases d))"
  using command_first_match [of exampleApp "''run''"]
  by (simp add: command_exampleApp_run)

text \<open>
  Claim C5, as stated, fails: \<open>runCommand\<close> has the primary name \<open>run\<close>, yet the lookup
  of \<open>run\<close> returns \<open>buildCommand\<close>, declared before it, which has \<open>run\<close> only as
  an alias.
\<close>

theorem command_primary_name_not_preferred:
  "command exampleApp ''run'' = Some buildCommand
   \<and> Name buildCommand \<noteq> ''run'' \<and> ''run'' \<in> set (Aliases buildCommand)
   \<and> runCommand \<in> set (Commands exampleApp) \<and> Name runCommand = ''run''"
  by (simp add: command_def exampleApp_def zeroApp_def hasName_def Names_def
      buildCommand_def runCommand_def zeroCommand_def)

subsection \<open>The category index\<close>

lemma names_AddCommand:
  "map cat_Name (AddCommand cats n c) =
     (if n \<in> set (map cat_Name cats) then map cat_Name cats else map cat_Name cats @ [n])"
  by (induction cats) auto

lemma names_addCommands:
  "map cat_Name (addCommands cats cs) = firstOcc (map cat_Name cats) (map Category cs)"
  by (induction cs arbitrary: cats) (simp_all add: names_AddCommand)

lemma set_firstOcc: "set (firstOcc seen xs) = set seen \<union> set xs"
  by (induction xs arbitrary: seen) auto

lemma firstOcc_snoc:
  "firstOcc seen (ys @ [x]) =
     (if x \<in> set (firstOcc seen ys) then firstOcc seen ys else firstOcc seen ys @ [x])"
  by (induction ys arbitrary: seen) auto

lemma firstOcc_remdups: "firstOcc [] xs = rev (remdups (rev xs))"
proof (induction xs rule: rev_induct)
  case Nil
  then show ?case by simp
next
  case (snoc x xs)
  then show ?case by (simp add: firstOcc_snoc set_firstOcc)
qed

lemma distinct_firstOcc: "distinct seen \<Longrightarrow> distinct (firstOcc seen xs)"
  by (induction xs arbitrary: seen) auto

lemma sort_insert_set: "set (sort_insert x ys) = insert x (set ys)"
  by (induction ys) auto

lemma sort_Sort_set: "set (sort_Sort xs) = set xs"
  by (induction xs) (auto simp: sort_insert_set)

lemma sort_insert_names_set: "set (map cat_Name (sort_insert x ys)) = insert (cat_Name x) (set (map cat_Name ys))"
  by (induction ys) auto

lemma sort_insert_distinct:
  "distinct (map cat_Name (sort_insert x ys)) = distinct (map cat_Name (x # ys))"
  by (induction ys) (auto simp: sort_insert_set)

lemma sort_Sort_distinct: "distinct (map cat_Name (sort_Sort xs)) = distinct (map cat_Name xs)"
  by (induction xs) (auto simp: sort_insert_distinct sort_Sort_set)

lemma sort_insert_sorted:
  "sorted_wrt lexicographicLess (map cat_Name ys) \<Longrightarrow> cat_Name x \<notin> set (map cat_Name ys) \<Longrightarrow>
     sorted_wrt lexicographicLess (map cat_Name (sort_insert x ys))"
  by (induction ys) (auto simp: sort_insert_set Less_def lexicographicLess_def)

lemma sort_Sort_sorted:
  "distinct (map cat_Name xs) \<Longrightarrow> sorted_wrt lexicographicLess (map cat_Name (sort_Sort xs))"
  by (induction xs) (auto simp: sort_insert_sorted sort_Sort_set)

lemma AddCommand_commands:
  assumes "distinct (map cat_Name cats)"
    and "\<forall>cc\<in>set cats. cat_Commands cc = filter (\<lambda>c. Category c = cat_Name cc) pre"
    and "Category c \<notin> cat_Name ` set cats \<longrightarrow> filter (\<lambda>d. Category d = Category c) pre = []"
  shows "\<forall>cc\<in>set (AddCommand cats (Category c) c).
           cat_Commands cc = filter (\<lambda>c. Category c = cat_Name cc) (pre @ [c])"
  using assms
proof (induction cats)
  case Nil
  then show ?case by simp
next
  case (Cons cc cats)
  show ?case
  proof (cases "cat_Name cc = Category c")
    case True
    with Cons.prems show ?thesis by (auto simp: image_iff)
  next
    case False
    with Cons show ?thesis by auto
  qed
qed

lemma AddCommand_distinct:
  "distinct (map cat_Name cats) \<Longrightarrow> distinct (map cat_Name (AddCommand cats n c))"
  by (simp add: names_AddCommand)

lemma AddCommand_covers:
  "Category ` set pre \<subseteq> cat_Name ` set cats \<Longrightarrow>
     Category ` set (pre @ [c]) \<subseteq> cat_Name ` set (AddCommand cats (Category c) c)"
  using names_AddCommand [of cats "Category c" c]
  by (simp only: set_map [symmetric]) (auto split: if_splits)

lemma addCommands_commands:
  "distinct (map cat_Name cats) \<Longrightarrow>
   \<forall>cc\<in>set cats. cat_Commands cc = filter (\<lambda>c. Category c = cat_Name cc) pre \<Longrightarrow>
   Category ` set pre \<subseteq> cat_Name ` set cats \<Longrightarrow>
   \<forall>cc\<in>set (addCommands cats cs). cat_Commands cc = filter (\<lambda>c. Category c = cat_Name cc) (pre @ cs)"
proof (induction cs arbitrary: cats pre)
  case Nil
  then show ?case by simp
next
  case (Cons c cs)
  have d: "distinct (map cat_Name (AddCommand cats (Category c) c))"
    using Cons.prems(1) by (rule AddCommand_distinct)
  have f: "\<forall>cc\<in>set (AddCommand cats (Category c) c).
             cat_Commands cc = filter (\<lambda>c. Category c = cat_Name cc) (pre @ [c])"
  proof (rule AddCommand_commands)
    show "distinct (map cat_Name cats)" by (rule Cons.prems(1))
    show "\<forall>cc\<in>set cats. cat_Commands cc = filter (\<lambda>c. Category c = cat_Name cc) pre"
      by (rule Cons.prems(2))
    show "Category c \<notin> cat_Name ` set cats \<longrightarrow> filter (\<lambda>d. Category d = Category c) pre = []"
    proof
      assume nin: "Category c \<notin> cat_Name ` set cats"
      have "\<forall>d\<in>set pre. Category d \<noteq> Category c"
      proof
        fix d assume "d \<in> set pre"
        then have "Category d \<in> cat_Name ` set cats" using Cons.prems(3) by blast
        with nin show "Category d \<noteq> Category c" by metis
      qed
      then show "filter (\<lambda>d. Category d = Category c) pre = []"
        by (simp add: filter_empty_conv)
    qed
  qed
  have g: "Category ` set (pre @ [c]) \<subseteq> cat_Name ` set (AddCommand cats (Category c) c)"
    using Cons.prems(3) by (rule AddCommand_covers)
  from Cons.IH [OF d f g] show ?case by simp
qed

lemma setup_steps_Commands:
  "Commands (setup_sinks a) = Commands a"
  "Commands (setup_categories a) = Commands a"
  "categories (setup_sinks a) = categories a"
  "categories (setup_categories a) = sort_Sort (addCommands [] (Commands a))"
  by (simp_all add: setup_sinks_def setup_categories_def Let_def)

lemma categories_setup:
  "\<not> didSetup a \<Longrightarrow> categories (App_setup a) = sort_Sort (addCommands [] (Commands (App_setup a)))"
  by (simp add: App_setup_def setup_steps_Commands)

lemma hasName_stampHelpName [simp]: "hasName (stampHelpName h c) n = hasName c n"
  by (simp add: stampHelpName_def hasName_def Names_def)

lemma Category_stampHelpName [simp]: "Category (stampHelpName h c) = Category c"
  by (simp add: stampHelpName_def)

lemma command_loop_stamp:
  "command_loop (map (stampHelpName h) cs) n = map_option (stampHelpName h) (command_loop cs n)"
  by (induction cs) simp_all

lemma setup_authors_fields [simp]:
  "Commands (setup_authors a) = Commands a"
  "AppHelpName (setup_authors a) = AppHelpName a"
  "HideHelp (setup_authors a) = HideHelp a"
  by (simp_all add: setup_authors_def)

lemma setup_commands_fields [simp]:
  "Commands (setup_commands a) = map (stampHelpName (AppHelpName a)) (Commands a)"
  "HideHelp (setup_commands a) = HideHelp a"
  by (simp_all add: setup_commands_def)

lemma setup_help_Commands:
  "Commands (setup_help a) =
     Commands a @ (if command a ''help'' = None \<and> \<not> HideHelp a then [helpCommand] else [])"
  by (simp add: setup_help_def Let_def appendFlag_def helpCommand_def)

lemma setup_version_Commands [simp]: "Commands (setup_version a) = Commands a"
  by (simp add: setup_version_def Let_def appendFlag_def)

lemma Commands_setup:
  assumes "\<not> didSetup a"
  shows "Commands (App_setup a) =
     map (stampHelpName (AppHelpName a)) (Commands a)
       @ (if command a ''help'' = None \<and> \<not> HideHelp a then [helpCommand] else [])"
proof -
  let ?b = "setup_commands (setup_authors (a\<lparr>didSetup := True\<rparr>))"
  have c: "command ?b ''help'' = None \<longleftrightarrow> command a ''help'' = None"
    by (simp add: command_def command_loop_stamp)
  have "Commands (App_setup a) = Commands (setup_help ?b)"
    using assms by (simp add: App_setup_def setup_steps_Commands)
  also have "\<dots> = Commands ?b @ (if command ?b ''help'' = None \<and> \<not> HideHelp ?b then [helpCommand] else [])"
    by (rule setup_help_Commands)
  also have "\<dots> = map (stampHelpName (AppHelpName a)) (Commands a)
       @ (if command a ''help'' = None \<and> \<not> HideHelp a then [helpCommand] else [])"
    by (simp only: c) simp
  finally show ?thesis .
qed

text \<open>
  Claim C9. Let setup run on an App (it has not run before). The Command list it leaves is
  the declared list, each command with its display name stamped, followed by the help
  command when setup injects it. The category index is the sorted list of the categories
  that the loop over this list creates; the loop creates them in the order of first
  occurrence of their names; the index has one category per distinct category name of the
  list, in ascending order of lexicographicLess; and each category holds the commands of
  that category in the order of the list.
\<close>

theorem categories_after_setup:
  assumes "\<not> didSetup a"
  shows "let cs = map (stampHelpName (AppHelpName a)) (Commands a)
                   @ (if command a ''help'' = None \<and> \<not> HideHelp a then [helpCommand] else [])
    in Commands (App_setup a) = cs
    \<and> map Category cs = map Category (Commands a)
          @ (if command a ''help'' = None \<and> \<not> HideHelp a then [Category helpCommand] else [])
    \<and> categories (App_setup a) = sort_Sort (addCommands [] cs)
    \<and> map cat_Name (addCommands [] cs) = rev (remdups (rev (map Category cs)))
    \<and> distinct (map cat_Name (categories (App_setup a)))
    \<and> set (map cat_Name (categories (App_setup a))) = set (map Category cs)
    \<and> sorted_wrt lexicographicLess (map cat_Name (categories (App_setup a)))
    \<and> (\<forall>cc\<in>set (categories (App_setup a)).
          cat_Commands cc = filter (\<lambda>c. Category c = cat_Name cc) cs)"
proof -
  define cs where "cs = map (stampHelpName (AppHelpName a)) (Commands a)
                   @ (if command a ''help'' = None \<and> \<not> HideHelp a then [helpCommand] else [])"
  let ?idx = "addCommands [] cs"
  have k: "Commands (App_setup a) = cs"
    unfolding cs_def using assms by (rule Commands_setup)
  have m: "map Category cs = map Category (Commands a)
          @ (if command a ''help'' = None \<and> \<not> HideHelp a then [Category helpCommand] else [])"
    by (simp add: cs_def comp_def)
  have c: "categories (App_setup a) = sort_Sort ?idx"
    using categories_setup [OF assms] by (simp only: k)
  have n: "map cat_Name ?idx = rev (remdups (rev (map Category cs)))"
    by (simp add: names_addCommands firstOcc_remdups)
  have d: "distinct (map cat_Name ?idx)"
    by (simp add: n)
  have s: "set (map cat_Name (sort_Sort ?idx)) = set (map Category cs)"
  proof -
    have "set (map cat_Name (sort_Sort ?idx)) = set (map cat_Name ?idx)"
      by (simp add: sort_Sort_set)
    also have "\<dots> = set (map Category cs)"
      by (simp only: n set_rev set_remdups)
    finally show ?thesis .
  qed
  have f: "\<forall>cc\<in>set ?idx. cat_Commands cc = filter (\<lambda>c. Category c = cat_Name cc) ([] @ cs)"
    by (rule addCommands_commands) simp_all
  have "Commands (App_setup a) = cs
    \<and> map Category cs = map Category (Commands a)
          @ (if command a ''help'' = None \<and> \<not> HideHelp a then [Category helpCommand] else [])
    \<and> categories (App_setup a) = sort_Sort (addCommands [] cs)
    \<and> map cat_Name (addCommands [] cs) = rev (remdups (rev (map Category cs)))
    \<and> distinct (map cat_Name (categories (App_setup a)))
    \<and> set (map cat_Name (categories (App_setup a))) = set (map Category cs)
    \<and> sorted_wrt lexicographicLess (map cat_Name (categories (App_setup a)))
    \<and> (\<forall>cc\<in>set (categories (App_setup a)).
          cat_Commands cc = filter (\<lambda>c. Category c = cat_Name cc) cs)"
    using k m c n d s f by (simp add: sort_Sort_distinct sort_Sort_sorted sort_Sort_set)
  then show ?thesis
    unfolding cs_def Let_def .
qed

lemma categories_exampleApp:
  "map Name (Commands (App_setup exampleApp)) = [''build'', ''run'', ''test'', ''help'']"
  "map cat_Name (categories (App_setup exampleApp)) = ['''', ''dev'', ''ops'']"
  "map (\<lambda>cc. map Name (cat_Commands cc)) (categories (App_setup exampleApp))
     = [[''help''], [''run''], [''build'', ''test'']]"
  by (simp_all add: App_setup_def exampleApp_def zeroApp_def setup_authors_def setup_commands_def
      setup_help_def setup_version_def setup_categories_def setup_sinks_def Let_def
      command_def hasName_def Names_def stampHelpName_def appendFlag_def hasFlag_def
      buildCommand_def runCommand_def testCommand_def zeroCommand_def helpCommand_def
      HelpFlag_def zeroFlagSpec_def Less_def lexicographicLess_def)

theorem categories_after_setup_witness:
  "\<not> didSetup exampleApp
   \<and> map Name (Commands exampleApp) = [''build'', ''run'', ''test'']
   \<and> map Category (Commands exampleApp) = [''ops'', ''dev'', ''ops'']
   \<and> map Name (Commands (App_setup exampleApp)) = [''build'', ''run'', ''test'', ''help'']
   \<and> map cat_Name (categories (App_setup exampleApp)) = ['''', ''dev'', ''ops'']
   \<and> sorted_wrt lexicographicLess ['''', ''dev'', ''ops'']
   \<and> map (\<lambda>cc. map Name (cat_Commands cc)) (categories (App_setup exampleApp))
       = [[''help''], [''run''], [''build'', ''test'']]"
proof -
  have h: "\<not> didSetup exampleApp" by (simp add: exampleApp_def zeroApp_def)
  have e: "map Name (Commands exampleApp) = [''build'', ''run'', ''test'']"
    "map Category (Commands exampleApp) = [''ops'', ''dev'', ''ops'']"
    by (simp_all add: exampleApp_def zeroApp_def buildCommand_def runCommand_def
        testCommand_def zeroCommand_def)
  have s: "sorted_wrt lexicographicLess (map cat_Name (categories (App_setup exampleApp)))"
    using categories_after_setup [OF h] unfolding Let_def by (elim conjE)
  show ?thesis
    using h e s categories_exampleApp by simp
qed

section \<open>Properties of dispatch\<close>

subsection \<open>Fields that setup leaves alone, and events of the early exits\<close>

lemma appendFlag_fields [simp]:
  "After (appendFlag a f) = After a"
  "BeforeHook (appendFlag a f) = BeforeHook a"
  "Action (appendFlag a f) = Action a"
  "OnUsageError (appendFlag a f) = OnUsageError a"
  "ExitErrHandler (appendFlag a f) = ExitErrHandler a"
  "BashComplete (appendFlag a f) = BashComplete a"
  "EnableBashCompletion (appendFlag a f) = EnableBashCompletion a"
  "AppName (appendFlag a f) = AppName a"
  "Commands (appendFlag a f) = Commands a"
  "categories (appendFlag a f) = categories a"
  "Writer (appendFlag a f) = Writer a"
  by (simp_all add: appendFlag_def)

lemma setup_authors_hooks [simp]:
  "After (setup_authors a) = After a"
  "BeforeHook (setup_authors a) = BeforeHook a"
  "Action (setup_authors a) = Action a"
  "OnUsageError (setup_authors a) = OnUsageError a"
  "ExitErrHandler (setup_authors a) = ExitErrHandler a"
  "BashComplete (setup_authors a) = BashComplete a"
  "EnableBashCompletion (setup_authors a) = EnableBashCompletion a"
  "AppName (setup_authors a) = AppName a"
  by (simp_all add: setup_authors_def)

lemma setup_commands_hooks [simp]:
  "After (setup_commands a) = After a"
  "BeforeHook (setup_commands a) = BeforeHook a"
  "Action (setup_commands a) = Action a"
  "OnUsageError (setup_commands a) = OnUsageError a"
  "ExitErrHandler (setup_commands a) = ExitErrHandler a"
  "BashComplete (setup_commands a) = BashComplete a"
  "EnableBashCompletion (setup_commands a) = EnableBashCompletion a"
  "AppName (setup_commands a) = AppName a"
  by (simp_all add: setup_commands_def)

lemma setup_help_hooks [simp]:
  "After (setup_help a) = After a"
  "BeforeHook (setup_help a) = BeforeHook a"
  "Action (setup_help a) = Action a"
  "OnUsageError (setup_help a) = OnUsageError a"
  "ExitErrHandler (setup_help a) = ExitErrHandler a"
  "BashComplete (setup_help a) = BashComplete a"
  "EnableBashCompletion (setup_help a) = EnableBashCompletion a"
  "AppName (setup_help a) = AppName a"
  by (simp_all add: setup_help_def Let_def)

lemma setup_version_hooks [simp]:
  "After (setup_version a) = After a"
  "BeforeHook (setup_version a) = BeforeHook a"
  "Action (setup_version a) = Action a"
  "OnUsageError (setup_version a) = OnUsageError a"
  "ExitErrHandler (setup_version a) = ExitErrHandler a"
  "BashComplete (setup_version a) = BashComplete a"
  "EnableBashCompletion (setup_version a) = EnableBashCompletion a"
  "AppName (setup_version a) = AppName a"
  by (simp_all add: setup_version_def Let_def)

lemma setup_categories_hooks [simp]:
  "After (setup_categories a) = After a"
  "BeforeHook (setup_categories a) = BeforeHook a"
  "Action (setup_categories a) = Action a"
  "OnUsageError (setup_categories a) = OnUsageError a"
  "ExitErrHandler (setup_categories a) = ExitErrHandler a"
  "BashComplete (setup_categories a) = BashComplete a"
  "EnableBashCompletion (setup_categories a) = EnableBashCompletion a"
  "AppName (setup_categories a) = AppName a"
  by (simp_all add: setup_categories_def)

lemma setup_sinks_hooks [simp]:
  "After (setup_sinks a) = After a"
  "BeforeHook (setup_sinks a) = BeforeHook a"
  "Action (setup_sinks a) = Action a"
  "OnUsageError (setup_sinks a) = OnUsageError a"
  "ExitErrHandler (setup_sinks a) = ExitErrHandler a"
  "BashComplete (setup_sinks a) = BashComplete a"
  "EnableBashCompletion (setup_sinks a) = EnableBashCompletion a"
  "AppName (setup_sinks a) = AppName a"
  by (simp_all add: setup_sinks_def Let_def)

lemma App_setup_hooks:
  "After (App_setup a) = After a"
  "BeforeHook (App_setup a) = BeforeHook a"
  "Action (App_setup a) = Action a"
  "OnUsageError (App_setup a) = OnUsageError a"
  "ExitErrHandler (App_setup a) = ExitErrHandler a"
  "BashComplete (App_setup a) = BashComplete a"
  "EnableBashCompletion (App_setup a) = EnableBashCompletion a"
  "AppName (App_setup a) = AppName a"
  by (simp_all add: App_setup_def)

lemma setup_steps_Writer [simp]:
  "Writer (setup_authors a) = Writer a"
  "Writer (setup_commands a) = Writer a"
  "Writer (setup_help a) = Writer a"
  "Writer (setup_version a) = Writer a"
  "Writer (setup_categories a) = Writer a"
  "Writer (setup_sinks a) = Some (case Writer a of None \<Rightarrow> Stdout | Some w \<Rightarrow> w)"
  by (simp_all add: setup_authors_def setup_commands_def setup_help_def setup_version_def
      setup_categories_def setup_sinks_def Let_def split: option.splits)

lemma Writer_setup:
  "\<not> didSetup a \<Longrightarrow> Writer (App_setup a) = Some (case Writer a of None \<Rightarrow> Stdout | Some w \<Rightarrow> w)"
  by (simp add: App_setup_def)

lemma handleExitCoder_no_hook: "\<forall>e\<in>set (handleExitCoder a c err). \<not> hook_event e"
  by (auto simp: handleExitCoder_def split: option.splits)

lemma Run_usageError_no_hook: "\<forall>e\<in>set (snd (Run_usageError a c err b)). \<not> hook_event e"
  by (auto simp: Run_usageError_def Fprint_def Let_def handleExitCoder_def split: option.splits)

lemma checkCompletions_no_hook: "\<forall>e\<in>set (snd (checkCompletions a c)). \<not> hook_event e"
  by (auto simp: checkCompletions_def showCompletions_def split: option.splits)

lemma Run_checks_no_hook:
  "Run_checks a fs complete err nerr = Inl r \<Longrightarrow> \<forall>e\<in>set (snd r). \<not> hook_event e"
  using Run_usageError_no_hook checkCompletions_no_hook
  by (auto simp: Run_checks_def Let_def Fprint_def split: option.splits if_splits)

lemma Run_front_no_hook:
  "Run_front x a args = Inl r \<Longrightarrow> \<forall>e\<in>set (snd r). \<not> hook_event e"
  using Run_checks_no_hook
  by (auto simp: Run_front_def Let_def split: outcome.splits sum.splits list.splits prod.splits)

subsection \<open>The After hook\<close>

lemma Run_unfold:
  "Run x a args =
     (case Run_front x (App_setup a) args of
        Inl r \<Rightarrow> (r, App_setup a)
      | Inr context \<Rightarrow>
          (Run_deferred (App_setup a) context (fst (Run_dispatch x (App_setup a) context)),
           snd (Run_dispatch x (App_setup a) context)))"
  by (simp add: Run_def Let_def split: sum.splits prod.splits)

lemma handleAction_no_After: "EvAfter \<notin> set (snd (handleAction act c))"
  by (cases act) simp_all

lemma handleExitCoder_no_After: "EvAfter \<notin> set (handleExitCoder a c err)"
  by (simp add: handleExitCoder_def split: option.splits)

lemma Run_action_no_After: "EvAfter \<notin> set (snd (fst (Run_action a c)))"
  using handleAction_no_After handleExitCoder_no_After
  by (simp add: Run_action_def Let_def split: outcome.splits)

lemma Run_command_no_After: "Run_command x a c = Some ra \<Longrightarrow> EvAfter \<notin> set (snd (fst ra))"
  by (auto simp: Run_command_def Let_def split: if_splits option.splits)

lemma Run_dispatch_no_After: "EvAfter \<notin> set (snd (fst (Run_dispatch x a c)))"
proof -
  have b: "EvAfter \<notin> set (snd (case BeforeHook a of None \<Rightarrow> (Returns None, []) | Some b \<Rightarrow> (b c, [EvBefore])))"
    by (simp split: option.splits)
  show ?thesis
    using b Run_action_no_After [of a c] Run_command_no_After [of x a c] handleExitCoder_no_After
    by (auto simp: Run_dispatch_def Let_def split: outcome.splits option.splits prod.splits)
qed

lemma Run_deferred_count:
  "After a = Some af \<Longrightarrow> count_list (snd (Run_deferred a c r)) EvAfter = count_list (snd r) EvAfter + 1"
  by (simp add: Run_deferred_def split: outcome.splits)

lemma count_list_0: "x \<notin> set xs \<Longrightarrow> count_list xs x = 0"
  by (induction xs) auto

lemma Run_front_stages:
  assumes "checkShellCompleteFlag a args = Returns (complete, arg0 # rest)"
    and "x_flagSet x (AppName a) (Flags a) = Inr fs"
    and "x_parseIter x fs a rest complete = (err, fs1)"
    and "x_normalizeFlags x (Flags a) fs1 = (nerr, fs2)"
  shows "Run_front x a args = Run_checks a fs2 complete err nerr"
  using assms by (simp add: Run_front_def)

lemma Run_checks_Inr_iff:
  "Run_checks a fs complete err nerr = Inr ctx \<longleftrightarrow>
     nerr = None \<and> err = None \<and> ctx = Context fs None complete
     \<and> \<not> fst (checkCompletions a ctx) \<and> checkRequiredFlags (Flags a) ctx = None"
  by (auto simp: Run_checks_def Let_def NewContext_def set_shellComplete_def split: option.splits)

lemma Run_front_Inr_iff:
  "Run_front x a args = Inr ctx \<longleftrightarrow>
     (\<exists>complete arg0 rest fs fs1 fs2.
        checkShellCompleteFlag a args = Returns (complete, arg0 # rest)
      \<and> x_flagSet x (AppName a) (Flags a) = Inr fs
      \<and> x_parseIter x fs a rest complete = (None, fs1)
      \<and> x_normalizeFlags x (Flags a) fs1 = (None, fs2)
      \<and> ctx = Context fs2 None complete
      \<and> \<not> fst (checkCompletions a ctx)
      \<and> checkRequiredFlags (Flags a) ctx = None)"
proof
  assume l: "Run_front x a args = Inr ctx"
  then obtain complete args' where c: "checkShellCompleteFlag a args = Returns (complete, args')"
    by (auto simp: Run_front_def split: outcome.splits)
  from l c obtain fs where f: "x_flagSet x (AppName a) (Flags a) = Inr fs"
    by (auto simp: Run_front_def split: sum.splits)
  from l c f obtain arg0 rest where r: "args' = arg0 # rest"
    by (auto simp: Run_front_def split: list.splits)
  obtain err fs1 where p: "x_parseIter x fs a rest complete = (err, fs1)" by fastforce
  obtain nerr fs2 where n: "x_normalizeFlags x (Flags a) fs1 = (nerr, fs2)" by fastforce
  from l have "Run_checks a fs2 complete err nerr = Inr ctx"
    using Run_front_stages [OF c [unfolded r] f p n] by simp
  then have e: "nerr = None" "err = None" "ctx = Context fs2 None complete"
    "\<not> fst (checkCompletions a ctx)" "checkRequiredFlags (Flags a) ctx = None"
    unfolding Run_checks_Inr_iff by blast+
  show "\<exists>complete arg0 rest fs fs1 fs2.
        checkShellCompleteFlag a args = Returns (complete, arg0 # rest)
      \<and> x_flagSet x (AppName a) (Flags a) = Inr fs
      \<and> x_parseIter x fs a rest complete = (None, fs1)
      \<and> x_normalizeFlags x (Flags a) fs1 = (None, fs2)
      \<and> ctx = Context fs2 None complete
      \<and> \<not> fst (checkCompletions a ctx)
      \<and> checkRequiredFlags (Flags a) ctx = None"
    using c [unfolded r] f p [unfolded e] n [unfolded e] e(3-5) by blast
next
  assume "\<exists>complete arg0 rest fs fs1 fs2.
        checkShellCompleteFlag a args = Returns (complete, arg0 # rest)
      \<and> x_flagSet x (AppName a) (Flags a) = Inr fs
      \<and> x_parseIter x fs a rest complete = (None, fs1)
      \<and> x_normalizeFlags x (Flags a) fs1 = (None, fs2)
      \<and> ctx = Context fs2 None complete
      \<and> \<not> fst (checkCompletions a ctx)
      \<and> checkRequiredFlags (Flags a) ctx = None"
  then obtain complete arg0 rest fs fs1 fs2 where
    s: "checkShellCompleteFlag a args = Returns (complete, arg0 # rest)"
      "x_flagSet x (AppName a) (Flags a) = Inr fs"
      "x_parseIter x fs a rest complete = (None, fs1)"
      "x_normalizeFlags x (Flags a) fs1 = (None, fs2)"
    and t: "ctx = Context fs2 None complete" "\<not> fst (checkCompletions a ctx)"
      "checkRequiredFlags (Flags a) ctx = None" by blast
  have "Run_checks a fs2 complete None None = Inr ctx"
    using t by (simp only: Run_checks_Inr_iff) simp
  with Run_front_stages [OF s] show "Run_front x a args = Inr ctx" by simp
qed

lemmas setup_defs = App_setup_def setup_authors_def setup_commands_def setup_help_def
  setup_version_def setup_categories_def setup_sinks_def stampHelpName_def appendFlag_def
  hasFlag_def command_def hasName_def Names_def helpCommand_def HelpFlag_def VersionFlag_def
  zeroFlagSpec_def Less_def lexicographicLess_def Let_def

lemmas run_defs = Run_def Run_front_def Run_checks_def Run_usageError_def Run_dispatch_def
  Run_command_def Run_action_def Run_deferred_def checkShellCompleteFlag_def
  checkCompletions_def showCompletions_def handleExitCoder_def Fprint_def newline_def
  NewContext_def set_shellComplete_def Args_def Present_def First_def
  checkRequiredFlags_def flagMissing_def flagKeys_def IsSet_def GetName_def TrimSpace_def
  isSpace_def BashCompletionFlag_def

lemmas example_defs = zeroApp_def zeroCommand_def buildCommand_def runCommand_def
  testCommand_def exampleApp_def emptyFlagSet_def plainExt_def normFailExt_def
  parseFailExt_def flagSetFailExt_def hookApp_def okActionApp_def nameFlag_def
  requiredApp_def completionApp_def requiredCompletionApp_def usageApp_def rootContext_def

lemma Run_front_reaches:
  "(\<exists>ctx. Run_front x a args = Inr ctx) \<longleftrightarrow>
     (\<exists>complete arg0 rest fs fs1 fs2.
        checkShellCompleteFlag a args = Returns (complete, arg0 # rest)
      \<and> x_flagSet x (AppName a) (Flags a) = Inr fs
      \<and> x_parseIter x fs a rest complete = (None, fs1)
      \<and> x_normalizeFlags x (Flags a) fs1 = (None, fs2)
      \<and> \<not> fst (checkCompletions a (Context fs2 None complete))
      \<and> checkRequiredFlags (Flags a) (Context fs2 None complete) = None)"
  unfolding Run_front_Inr_iff by blast

text \<open>
  Claim C1, as the code has it. Run registers the After hook after the required-flag check
  (lib/app.go, lines 225-238). So, when an After hook is registered, it is called exactly
  once on every call of Run that gets past that check, whether Before, the matched command
  or the Action returns an error, returns nil or panics; and it is not called on a call
  that ends before: a panic on the argument vector, an error of the flag set, a
  normalization error, a handled completion, a usage error or a missing required flag.
  The condition of the theorem is that of getting past the check: the argument vector is
  not empty once the completion marker is stripped, the flag set is built, parsing and
  normalization report no error, completion is not handled and no required flag is
  missing.
\<close>

theorem After_invoked_once:
  assumes "After a \<noteq> None"
  shows "count_list (snd (fst (Run x a args))) EvAfter =
     (if (\<exists>complete arg0 rest fs fs1 fs2.
            checkShellCompleteFlag (App_setup a) args = Returns (complete, arg0 # rest)
          \<and> x_flagSet x (AppName (App_setup a)) (Flags (App_setup a)) = Inr fs
          \<and> x_parseIter x fs (App_setup a) rest complete = (None, fs1)
          \<and> x_normalizeFlags x (Flags (App_setup a)) fs1 = (None, fs2)
          \<and> \<not> fst (checkCompletions (App_setup a) (Context fs2 None complete))
          \<and> checkRequiredFlags (Flags (App_setup a)) (Context fs2 None complete) = None)
      then 1 else 0)"
proof (cases "Run_front x (App_setup a) args")
  case (Inl r)
  then have n: "\<not> (\<exists>ctx. Run_front x (App_setup a) args = Inr ctx)" by simp
  from Run_front_no_hook [OF Inl] have "EvAfter \<notin> set (snd r)" by fastforce
  then have "count_list (snd r) EvAfter = 0" by (rule count_list_0)
  with Inl have "count_list (snd (fst (Run x a args))) EvAfter = 0" by (simp add: Run_unfold)
  with n show ?thesis unfolding Run_front_reaches by simp
next
  case (Inr ctx)
  then have y: "\<exists>ctx. Run_front x (App_setup a) args = Inr ctx" by simp
  from assms obtain af where af: "After (App_setup a) = Some af"
    by (auto simp: App_setup_hooks)
  have "count_list (snd (fst (Run_dispatch x (App_setup a) ctx))) EvAfter = 0"
    using Run_dispatch_no_After by (rule count_list_0)
  with Inr Run_deferred_count [OF af] have "count_list (snd (fst (Run x a args))) EvAfter = 1"
    by (simp add: Run_unfold)
  with y show ?thesis unfolding Run_front_reaches by simp
qed

lemma Run_front_hookApp:
  "Run_front plainExt (App_setup hookApp) [''gin''] = Inr (Context emptyFlagSet None False)"
  by (simp add: setup_defs run_defs example_defs)

lemma Run_hookApp:
  "fst (Run plainExt hookApp [''gin'']) =
     (Returns (Some (UserError ''action failed'')), [EvBefore, EvAction, EvAfter])"
  by (simp add: setup_defs run_defs example_defs)

lemma Run_requiredApp:
  "fst (Run plainExt requiredApp [''gin'']) = (Returns (Some (RequiredFlagMissing [''name, n''])), [])"
  by (simp add: setup_defs run_defs example_defs)

theorem After_invoked_once_witness:
  "After hookApp \<noteq> None
   \<and> fst (Run plainExt hookApp [''gin'']) =
       (Returns (Some (UserError ''action failed'')), [EvBefore, EvAction, EvAfter])
   \<and> count_list (snd (fst (Run plainExt hookApp [''gin'']))) EvAfter = 1"
proof -
  have h: "After hookApp \<noteq> None" by (simp add: hookApp_def zeroApp_def)
  have r: "\<exists>ctx. Run_front plainExt (App_setup hookApp) [''gin''] = Inr ctx"
    by (simp add: Run_front_hookApp)
  have c: "count_list (snd (fst (Run plainExt hookApp [''gin'']))) EvAfter = 1"
    using After_invoked_once [OF h, of plainExt "[''gin'']"] r
    unfolding Run_front_reaches by simp
  show ?thesis using h c Run_hookApp by simp
qed

text \<open>
  Claim C1, as stated, fails: \<open>requiredApp\<close> registers an After hook and declares a
  required flag; run without the flag, Run returns the error of the required-flag check and
  the After hook is not called at all.
\<close>

theorem After_not_invoked_when_required_flag_missing:
  "After requiredApp \<noteq> None
   \<and> fst (Run plainExt requiredApp [''gin'']) = (Returns (Some (RequiredFlagMissing [''name, n''])), [])
   \<and> count_list (snd (fst (Run plainExt requiredApp [''gin'']))) EvAfter = 0"
  by (simp add: Run_requiredApp) (simp add: requiredApp_def hookApp_def zeroApp_def)

subsection \<open>Which error Run returns\<close>

lemma Run_dispatch_before_error:
  "BeforeHook a = Some b \<Longrightarrow> b c = Returns (Some be) \<Longrightarrow>
     Run_dispatch x a c = ((Returns (Some be), EvBefore # handleExitCoder a c (Some be)), a)"
  by (simp add: Run_dispatch_def)

lemma Run_dispatch_command:
  "Before_passes a c \<Longrightarrow> Run_command x a c = Some ra \<Longrightarrow>
     Run_dispatch x a c = ((fst (fst ra), Before_events a @ snd (fst ra)), snd ra)"
  by (auto simp: Run_dispatch_def Before_passes_def Before_events_def Let_def
      split: option.splits outcome.splits prod.splits)

lemma Run_dispatch_action:
  "Before_passes a c \<Longrightarrow> Run_command x a c = None \<Longrightarrow>
     Run_dispatch x a c =
       ((fst (fst (Run_action a c)), Before_events a @ snd (fst (Run_action a c))), snd (Run_action a c))"
  by (auto simp: Run_dispatch_def Before_passes_def Before_events_def Let_def
      split: option.splits outcome.splits prod.splits)

lemma Run_command_Some:
  "Present (Args c) \<Longrightarrow> command a (First (Args c)) = Some cmd \<Longrightarrow>
     Run_command x a c = Some ((x_run x cmd c, [EvCommandRun cmd]), a)"
  by (simp add: Run_command_def)

lemma Run_command_None:
  "\<not> (Present (Args c) \<and> command a (First (Args c)) \<noteq> None) \<Longrightarrow> Run_command x a c = None"
  by (auto simp: Run_command_def Let_def split: option.splits)

lemma Run_action_result:
  "fst (fst (Run_action a c)) = fst (handleAction (Run_Action_of a) c)"
  by (cases "Action a")
     (simp_all add: Run_action_def Run_Action_of_def Let_def split: outcome.splits)

lemma Run_Action_of_setup: "Run_Action_of (App_setup a) = Run_Action_of a"
  by (simp add: Run_Action_of_def App_setup_hooks)

lemma Before_passes_setup: "Before_passes (App_setup a) c = Before_passes a c"
  by (simp add: Before_passes_def App_setup_hooks)

lemma Before_events_setup: "Before_events (App_setup a) = Before_events a"
  by (simp add: Before_events_def App_setup_hooks)

lemma Run_deferred_result:
  "After a = Some af \<Longrightarrow> af c = Returns (Some afterErr) \<Longrightarrow> fst r = Returns err \<Longrightarrow>
     fst (Run_deferred a c r) = Returns (case err of None \<Rightarrow> Some afterErr | Some e \<Rightarrow> Some e)"
  by (simp add: Run_deferred_def split: option.splits)

lemma Run_past_checks:
  assumes "checkShellCompleteFlag a args = Returns (complete, arg0 # rest)"
    and "x_flagSet x (AppName a) (Flags a) = Inr fs"
    and "x_parseIter x fs a rest complete = (None, fs1)"
    and "x_normalizeFlags x (Flags a) fs1 = (None, fs2)"
    and "\<not> fst (checkCompletions a (Context fs2 None complete))"
    and "checkRequiredFlags (Flags a) (Context fs2 None complete) = None"
  shows "Run_front x a args = Inr (Context fs2 None complete)"
  unfolding Run_front_Inr_iff using assms by blast

text \<open>
  Claim C3. Let Run get past its checks, with an After hook that returns a non-nil error.
  The error of an earlier stage is the error Run returns: the error of Before, of the
  matched command, or of the Action (also the invalid-Action error of handleAction). The
  error of After is returned only when the stage that ran returned nil. In every case the
  After hook is called once.
\<close>

theorem Action_error_shadows_After_error:
  assumes "checkShellCompleteFlag (App_setup a) args = Returns (complete, arg0 # rest)"
    and "x_flagSet x (AppName (App_setup a)) (Flags (App_setup a)) = Inr fs"
    and "x_parseIter x fs (App_setup a) rest complete = (None, fs1)"
    and "x_normalizeFlags x (Flags (App_setup a)) fs1 = (None, fs2)"
    and "\<not> fst (checkCompletions (App_setup a) (Context fs2 None complete))"
    and "checkRequiredFlags (Flags (App_setup a)) (Context fs2 None complete) = None"
    and "After a = Some af"
    and "af (Context fs2 None complete) = Returns (Some afterErr)"
  shows "(\<forall>b beforeErr. BeforeHook a = Some b \<and> b (Context fs2 None complete) = Returns (Some beforeErr)
            \<longrightarrow> fst (fst (Run x a args)) = Returns (Some beforeErr))
    \<and> (\<forall>c cmdErr. Before_passes a (Context fs2 None complete)
            \<and> Present (fs_args fs2) \<and> command (App_setup a) (First (fs_args fs2)) = Some c
            \<and> x_run x c (Context fs2 None complete) = Returns cmdErr
            \<longrightarrow> fst (fst (Run x a args)) = Returns (case cmdErr of None \<Rightarrow> Some afterErr | Some e \<Rightarrow> Some e))
    \<and> (\<forall>actErr. Before_passes a (Context fs2 None complete)
            \<and> \<not> (Present (fs_args fs2) \<and> command (App_setup a) (First (fs_args fs2)) \<noteq> None)
            \<and> fst (handleAction (Run_Action_of a) (Context fs2 None complete)) = Returns actErr
            \<longrightarrow> fst (fst (Run x a args)) = Returns (case actErr of None \<Rightarrow> Some afterErr | Some e \<Rightarrow> Some e))
    \<and> count_list (snd (fst (Run x a args))) EvAfter = 1"
proof -
  let ?a = "App_setup a"
  let ?c = "Context fs2 None complete"
  have front: "Run_front x ?a args = Inr ?c"
    using assms(1-6) by (rule Run_past_checks)
  have after: "After ?a = Some af" using assms(7) by (simp add: App_setup_hooks)
  have run: "fst (Run x a args) = Run_deferred ?a ?c (fst (Run_dispatch x ?a ?c))"
    using front by (simp add: Run_unfold)
  have res: "\<And>err. fst (fst (Run_dispatch x ?a ?c)) = Returns err \<Longrightarrow>
      fst (fst (Run x a args)) = Returns (case err of None \<Rightarrow> Some afterErr | Some e \<Rightarrow> Some e)"
    using Run_deferred_result [OF after assms(8)] by (simp add: run)
  have args: "Args ?c = fs_args fs2" by (simp add: Args_def)
  have p1: "\<forall>b beforeErr. BeforeHook a = Some b \<and> b ?c = Returns (Some beforeErr)
            \<longrightarrow> fst (fst (Run x a args)) = Returns (Some beforeErr)"
  proof (intro allI impI)
    fix b beforeErr assume "BeforeHook a = Some b \<and> b ?c = Returns (Some beforeErr)"
    then have "BeforeHook ?a = Some b" "b ?c = Returns (Some beforeErr)"
      by (simp_all add: App_setup_hooks)
    from Run_dispatch_before_error [OF this]
    have "fst (fst (Run_dispatch x ?a ?c)) = Returns (Some beforeErr)" by simp
    from res [OF this] show "fst (fst (Run x a args)) = Returns (Some beforeErr)" by simp
  qed
  have p2: "\<forall>c cmdErr. Before_passes a ?c
            \<and> Present (fs_args fs2) \<and> command ?a (First (fs_args fs2)) = Some c
            \<and> x_run x c ?c = Returns cmdErr
            \<longrightarrow> fst (fst (Run x a args)) = Returns (case cmdErr of None \<Rightarrow> Some afterErr | Some e \<Rightarrow> Some e)"
  proof (intro allI impI)
    fix c cmdErr
    assume h: "Before_passes a ?c
            \<and> Present (fs_args fs2) \<and> command ?a (First (fs_args fs2)) = Some c
            \<and> x_run x c ?c = Returns cmdErr"
    then have b: "Before_passes ?a ?c" by (simp add: Before_passes_setup)
    from h have "Run_command x ?a ?c = Some ((x_run x c ?c, [EvCommandRun c]), ?a)"
      by (simp add: Run_command_Some args)
    from Run_dispatch_command [OF b this] h
    have "fst (fst (Run_dispatch x ?a ?c)) = Returns cmdErr" by simp
    from res [OF this]
    show "fst (fst (Run x a args)) = Returns (case cmdErr of None \<Rightarrow> Some afterErr | Some e \<Rightarrow> Some e)" .
  qed
  have p3: "\<forall>actErr. Before_passes a ?c
            \<and> \<not> (Present (fs_args fs2) \<and> command ?a (First (fs_args fs2)) \<noteq> None)
            \<and> fst (handleAction (Run_Action_of a) ?c) = Returns actErr
            \<longrightarrow> fst (fst (Run x a args)) = Returns (case actErr of None \<Rightarrow> Some afterErr | Some e \<Rightarrow> Some e)"
  proof (intro allI impI)
    fix actErr
    assume h: "Before_passes a ?c
            \<and> \<not> (Present (fs_args fs2) \<and> command ?a (First (fs_args fs2)) \<noteq> None)
            \<and> fst (handleAction (Run_Action_of a) ?c) = Returns actErr"
    then have b: "Before_passes ?a ?c" by (simp add: Before_passes_setup)
    from h have "Run_command x ?a ?c = None"
      using Run_command_None [of ?c ?a x] by (simp add: args)
    from Run_dispatch_action [OF b this] h
    have "fst (fst (Run_dispatch x ?a ?c)) = Returns actErr"
      by (simp add: Run_action_result Run_Action_of_setup)
    from res [OF this]
    show "fst (fst (Run x a args)) = Returns (case actErr of None \<Rightarrow> Some afterErr | Some e \<Rightarrow> Some e)" .
  qed
  have "count_list (snd (fst (Run_dispatch x ?a ?c))) EvAfter = 0"
    using Run_dispatch_no_After by (rule count_list_0)
  with Run_deferred_count [OF after] have p4: "count_list (snd (fst (Run x a args))) EvAfter = 1"
    by (simp add: run)
  from p1 p2 p3 p4 show ?thesis by blast
qed

lemma hookApp_stages:
  "checkShellCompleteFlag (App_setup hookApp) [''gin''] = Returns (False, [''gin''])"
  "x_flagSet plainExt (AppName (App_setup hookApp)) (Flags (App_setup hookApp)) = Inr emptyFlagSet"
  "x_parseIter plainExt emptyFlagSet (App_setup hookApp) [] False = (None, emptyFlagSet)"
  "x_normalizeFlags plainExt (Flags (App_setup hookApp)) emptyFlagSet = (None, emptyFlagSet)"
  "\<not> fst (checkCompletions (App_setup hookApp) (Context emptyFlagSet None False))"
  "checkRequiredFlags (Flags (App_setup hookApp)) (Context emptyFlagSet None False) = None"
  by (simp_all add: setup_defs run_defs example_defs)

lemma hookApp_hooks:
  "After hookApp = Some (\<lambda>c. Returns (Some (UserError ''after failed'')))"
  "Before_passes hookApp (Context emptyFlagSet None False)"
  "\<not> (Present (fs_args emptyFlagSet) \<and> command (App_setup hookApp) (First (fs_args emptyFlagSet)) \<noteq> None)"
  "fst (handleAction (Run_Action_of hookApp) (Context emptyFlagSet None False))
     = Returns (Some (UserError ''action failed''))"
  by (simp_all add: hookApp_def zeroApp_def Before_passes_def Run_Action_of_def emptyFlagSet_def
      Present_def)

theorem Action_error_shadows_After_error_witness:
  "After hookApp = Some (\<lambda>c. Returns (Some (UserError ''after failed'')))
   \<and> fst (handleAction (Run_Action_of hookApp) (Context emptyFlagSet None False))
       = Returns (Some (UserError ''action failed''))
   \<and> fst (fst (Run plainExt hookApp [''gin''])) = Returns (Some (UserError ''action failed''))
   \<and> count_list (snd (fst (Run plainExt hookApp [''gin'']))) EvAfter = 1
   \<and> fst (Run plainExt okActionApp [''gin''])
       = (Returns (Some (UserError ''after failed'')), [EvBefore, EvAction, EvAfter])"
proof -
  note t = Action_error_shadows_After_error [OF hookApp_stages hookApp_hooks(1), of "UserError ''after failed''"]
  have r: "fst (fst (Run plainExt hookApp [''gin''])) = Returns (Some (UserError ''action failed''))"
    using t hookApp_hooks(2-4) by fastforce
  have c: "count_list (snd (fst (Run plainExt hookApp [''gin'']))) EvAfter = 1"
    using t by simp
  have o: "fst (Run plainExt okActionApp [''gin''])
       = (Returns (Some (UserError ''after failed'')), [EvBefore, EvAction, EvAfter])"
    by (simp add: setup_defs run_defs example_defs)
  show ?thesis using r c o hookApp_hooks(1,4) by simp
qed

subsection \<open>Normalization errors and usage errors\<close>

text \<open>
  Claim C8. When normalizeFlags returns an error, Run writes the text of the error and a
  newline to the App's writer and returns the error; the events of the call are that one
  write, so OnUsageError is not called, whether or not parsing failed too. A parse error
  (with no normalization error, and completion not handled) goes to OnUsageError when it is
  registered, and Run returns what the hook returns. After setup has run the writer is
  never nil.
\<close>

theorem normalization_error_bypasses_OnUsageError:
  assumes "checkShellCompleteFlag (App_setup a) args = Returns (complete, arg0 # rest)"
    and "x_flagSet x (AppName (App_setup a)) (Flags (App_setup a)) = Inr fs"
    and "x_parseIter x fs (App_setup a) rest complete = (err, fs1)"
    and "x_normalizeFlags x (Flags (App_setup a)) fs1 = (nerr, fs2)"
  shows "(\<forall>ne w. nerr = Some ne \<and> Writer (App_setup a) = Some w \<longrightarrow>
            Run x a args = ((Returns (Some ne), [EvWrite w (Error ne @ newline)]), App_setup a))
    \<and> (\<forall>e h. nerr = None \<and> \<not> fst (checkCompletions (App_setup a) (Context fs2 None complete))
              \<and> err = Some e \<and> OnUsageError a = Some h \<longrightarrow>
            Run x a args =
              ((Returns (h (Context fs2 None complete) e False),
                EvOnUsageError e False
                  # handleExitCoder (App_setup a) (Context fs2 None complete) (h (Context fs2 None complete) e False)),
               App_setup a))
    \<and> (\<not> didSetup a \<longrightarrow> Writer (App_setup a) \<noteq> None)"
proof -
  let ?a = "App_setup a"
  have front: "Run_front x ?a args = Run_checks ?a fs2 complete err nerr"
    using assms by (rule Run_front_stages)
  have p1: "\<forall>ne w. nerr = Some ne \<and> Writer ?a = Some w \<longrightarrow>
            Run x a args = ((Returns (Some ne), [EvWrite w (Error ne @ newline)]), ?a)"
    by (simp add: Run_unfold front Run_checks_def Fprint_def Let_def)
  have p2: "\<forall>e h. nerr = None \<and> \<not> fst (checkCompletions ?a (Context fs2 None complete))
              \<and> err = Some e \<and> OnUsageError a = Some h \<longrightarrow>
            Run x a args =
              ((Returns (h (Context fs2 None complete) e False),
                EvOnUsageError e False
                  # handleExitCoder ?a (Context fs2 None complete) (h (Context fs2 None complete) e False)),
               ?a)"
    by (simp add: Run_unfold front Run_checks_def Run_usageError_def Let_def NewContext_def
        set_shellComplete_def App_setup_hooks)
  have p3: "\<not> didSetup a \<longrightarrow> Writer ?a \<noteq> None"
    by (simp add: Writer_setup)
  from p1 p2 p3 show ?thesis by blast
qed

subsection \<open>The empty argument vector\<close>

lemma checkShellCompleteFlag_empty: "checkShellCompleteFlag a [] = (if EnableBashCompletion a then Panicked else Returns (False, []))"
  by (simp add: checkShellCompleteFlag_def)

text \<open>
  Claim C10, as the code has it. On the empty argument vector Run panics when
  EnableBashCompletion is set (the index in checkShellCompleteFlag), and also when it is
  not set and the flag set is built (the slice \<open>arguments[1:]\<close>). When completion is
  off and flagSet returns an error, Run returns that error at lines 197-200, before the
  slice.
\<close>

theorem Run_empty_arguments:
  "fst (Run x a []) =
     (if EnableBashCompletion a then (Panicked, [])
      else (case x_flagSet x (AppName a) (Flags (App_setup a)) of
              Inl err \<Rightarrow> (Returns (Some err), [])
            | Inr fs \<Rightarrow> (Panicked, [])))"
  by (simp add: Run_unfold Run_front_def checkShellCompleteFlag_empty App_setup_hooks split: sum.splits)

subsection \<open>Completion mode\<close>

lemma Run_deferred_events:
  "snd (Run_deferred a c r) = snd r @ (case After a of None \<Rightarrow> [] | Some af \<Rightarrow> [EvAfter])"
  by (simp add: Run_deferred_def split: option.splits outcome.splits)

text \<open>
  Claim C7, as the code has it. Let the completion marker be detected, the flag set be
  built and normalization succeed. If the first positional argument is absent or names no
  command, Run calls the BashComplete handler when one is registered (and nothing when it
  is nil), returns nil, and calls no hook, Action or command. If it names a command,
  completion is left to the command: when parsing reported no error, no required flag is
  missing and Before passes, Run calls the command's run (after Before, and before After),
  and no Action and no BashComplete handler.
\<close>

theorem completion_mode:
  assumes "checkShellCompleteFlag (App_setup a) args = Returns (True, arg0 # rest)"
    and "x_flagSet x (AppName (App_setup a)) (Flags (App_setup a)) = Inr fs"
    and "x_parseIter x fs (App_setup a) rest True = (err, fs1)"
    and "x_normalizeFlags x (Flags (App_setup a)) fs1 = (None, fs2)"
  shows "(\<not> (Present (fs_args fs2) \<and> command (App_setup a) (First (fs_args fs2)) \<noteq> None) \<longrightarrow>
            Run x a args =
              ((Returns None,
                (case BashComplete a of None \<Rightarrow> [] | Some f \<Rightarrow> [EvBashComplete (f (Context fs2 None True))])),
               App_setup a))
    \<and> (\<forall>c. Present (fs_args fs2) \<and> command (App_setup a) (First (fs_args fs2)) = Some c
            \<and> err = None \<and> checkRequiredFlags (Flags (App_setup a)) (Context fs2 None True) = None
            \<and> Before_passes a (Context fs2 None True) \<longrightarrow>
            snd (fst (Run x a args)) =
              Before_events a @ [EvCommandRun c] @ (case After a of None \<Rightarrow> [] | Some af \<Rightarrow> [EvAfter])
            \<and> (After a = None \<longrightarrow> fst (fst (Run x a args)) = x_run x c (Context fs2 None True)))"
proof -
  let ?a = "App_setup a"
  let ?c = "Context fs2 None True"
  have front: "Run_front x ?a args = Run_checks ?a fs2 True err None"
    using assms by (rule Run_front_stages)
  have args: "Args ?c = fs_args fs2" by (simp add: Args_def)
  have p1: "\<not> (Present (fs_args fs2) \<and> command ?a (First (fs_args fs2)) \<noteq> None) \<longrightarrow>
            Run x a args =
              ((Returns None, (case BashComplete a of None \<Rightarrow> [] | Some f \<Rightarrow> [EvBashComplete (f ?c)])), ?a)"
    by (auto simp: Run_unfold front Run_checks_def Let_def NewContext_def set_shellComplete_def
        checkCompletions_def showCompletions_def args App_setup_hooks)
  have p2: "\<forall>c. Present (fs_args fs2) \<and> command ?a (First (fs_args fs2)) = Some c
            \<and> err = None \<and> checkRequiredFlags (Flags ?a) ?c = None
            \<and> Before_passes a ?c \<longrightarrow>
            snd (fst (Run x a args)) =
              Before_events a @ [EvCommandRun c] @ (case After a of None \<Rightarrow> [] | Some af \<Rightarrow> [EvAfter])
            \<and> (After a = None \<longrightarrow> fst (fst (Run x a args)) = x_run x c ?c)"
  proof (intro allI impI)
    fix c
    assume h: "Present (fs_args fs2) \<and> command ?a (First (fs_args fs2)) = Some c
            \<and> err = None \<and> checkRequiredFlags (Flags ?a) ?c = None
            \<and> Before_passes a ?c"
    then have cc: "\<not> fst (checkCompletions ?a ?c)"
      by (simp add: checkCompletions_def args)
    have "Run_checks ?a fs2 True None None = Inr ?c"
      unfolding Run_checks_Inr_iff using cc h by simp
    with front h have f: "Run_front x ?a args = Inr ?c" by simp
    from h have b: "Before_passes ?a ?c" by (simp add: Before_passes_setup)
    from h have "Run_command x ?a ?c = Some ((x_run x c ?c, [EvCommandRun c]), ?a)"
      by (simp add: Run_command_Some args)
    from Run_dispatch_command [OF b this]
    have d: "fst (Run_dispatch x ?a ?c) = (x_run x c ?c, Before_events a @ [EvCommandRun c])"
      by (simp add: Before_events_setup)
    have run: "fst (Run x a args) = Run_deferred ?a ?c (fst (Run_dispatch x ?a ?c))"
      using f by (simp add: Run_unfold)
    show "snd (fst (Run x a args)) =
              Before_events a @ [EvCommandRun c] @ (case After a of None \<Rightarrow> [] | Some af \<Rightarrow> [EvAfter])
            \<and> (After a = None \<longrightarrow> fst (fst (Run x a args)) = x_run x c ?c)"
      by (simp add: run d Run_deferred_events App_setup_hooks) (simp add: Run_deferred_def App_setup_hooks)
  qed
  from p1 p2 show ?thesis by blast
qed

subsection \<open>Required flags\<close>

lemma hasFlag_loop_mem: "hasFlag_loop fs f = (f \<in> set fs)"
  by (induction fs) auto

lemma Flags_appendFlag: "set (Flags a) \<subseteq> set (Flags (appendFlag a f))"
  by (auto simp: appendFlag_def)

lemma setup_steps_Flags:
  "Flags (setup_authors a) = Flags a"
  "Flags (setup_commands a) = Flags a"
  "set (Flags a) \<subseteq> set (Flags (setup_help a))"
  "set (Flags a) \<subseteq> set (Flags (setup_version a))"
  "Flags (setup_categories a) = Flags a"
  "Flags (setup_sinks a) = Flags a"
  by (auto simp: setup_authors_def setup_commands_def setup_help_def setup_version_def
      setup_categories_def setup_sinks_def Let_def appendFlag_def)

lemma Flags_setup: "set (Flags a) \<subseteq> set (Flags (App_setup a))"
proof (cases "didSetup a")
  case True
  then show ?thesis by (simp add: App_setup_def)
next
  case False
  let ?a1 = "setup_commands (setup_authors (a\<lparr>didSetup := True\<rparr>))"
  have "set (Flags a) = set (Flags ?a1)" by (simp add: setup_steps_Flags)
  also have "\<dots> \<subseteq> set (Flags (setup_help ?a1))" by (rule setup_steps_Flags)
  also have "\<dots> \<subseteq> set (Flags (setup_version (setup_help ?a1)))" by (rule setup_steps_Flags)
  finally show ?thesis using False by (simp add: App_setup_def setup_steps_Flags)
qed

lemma checkRequiredFlags_missing:
  assumes "f \<in> set flags" "Required (GetSpec f)" "\<forall>k\<in>set (flagKeys f). \<not> IsSet c k"
  shows "checkRequiredFlags flags c = Some (RequiredFlagMissing (map GetName (filter (flagMissing c) flags)))
     \<and> GetName f \<in> set (map GetName (filter (flagMissing c) flags))"
proof -
  have m: "flagMissing c f" using assms(2,3) by (simp add: flagMissing_def list_ex_iff)
  with assms(1) have "f \<in> set (filter (flagMissing c) flags)" by simp
  then have "GetName f \<in> set (map GetName (filter (flagMissing c) flags))" by force
  moreover from this have "map GetName (filter (flagMissing c) flags) \<noteq> []" by fastforce
  ultimately show ?thesis by (simp add: checkRequiredFlags_def Let_def)
qed

text \<open>
  Claim C4, as the code has it. Let Run build its context, and let a required flag of the
  App have no entry in the parsed values (supplied neither by a CLI token nor by the
  environment). Then Run calls no hook, no Action and no command. When moreover
  normalization and parsing report no error and completion is not handled, Run returns the
  RequiredFlagMissing error, which names the flag.
\<close>

theorem required_flag_missing:
  assumes "checkShellCompleteFlag (App_setup a) args = Returns (complete, arg0 # rest)"
    and "x_flagSet x (AppName (App_setup a)) (Flags (App_setup a)) = Inr fs"
    and "x_parseIter x fs (App_setup a) rest complete = (err, fs1)"
    and "x_normalizeFlags x (Flags (App_setup a)) fs1 = (nerr, fs2)"
    and "f \<in> set (Flags a)"
    and "Required (GetSpec f)"
    and "\<forall>k\<in>set (flagKeys f). \<not> IsSet (Context fs2 None complete) k"
  shows "(\<forall>e\<in>set (snd (fst (Run x a args))). \<not> hook_event e)
    \<and> (nerr = None \<and> err = None \<and> \<not> fst (checkCompletions (App_setup a) (Context fs2 None complete)) \<longrightarrow>
          fst (Run x a args) =
            (Returns (Some (RequiredFlagMissing
               (map GetName (filter (flagMissing (Context fs2 None complete)) (Flags (App_setup a)))))), [])
          \<and> GetName f \<in> set (map GetName (filter (flagMissing (Context fs2 None complete)) (Flags (App_setup a)))))"
proof -
  let ?a = "App_setup a"
  let ?c = "Context fs2 None complete"
  have front: "Run_front x ?a args = Run_checks ?a fs2 complete err nerr"
    using assms(1-4) by (rule Run_front_stages)
  have fa: "f \<in> set (Flags ?a)" using assms(5) Flags_setup by blast
  note miss = checkRequiredFlags_missing [OF fa assms(6,7)]
  have notInr: "\<And>ctx. Run_checks ?a fs2 complete err nerr \<noteq> Inr ctx"
    unfolding Run_checks_Inr_iff using miss by auto
  then obtain r where r: "Run_checks ?a fs2 complete err nerr = Inl r"
    by (cases "Run_checks ?a fs2 complete err nerr") auto
  have run: "fst (Run x a args) = r" by (simp add: Run_unfold front r)
  have p1: "\<forall>e\<in>set (snd (fst (Run x a args))). \<not> hook_event e"
    using Run_checks_no_hook [OF r] by (simp add: run)
  have p2: "nerr = None \<and> err = None \<and> \<not> fst (checkCompletions ?a ?c) \<longrightarrow>
          fst (Run x a args) =
            (Returns (Some (RequiredFlagMissing (map GetName (filter (flagMissing ?c) (Flags ?a))))), [])"
    using r miss
    by (auto simp: run Run_checks_def Let_def NewContext_def set_shellComplete_def)
  from p1 p2 miss show ?thesis by blast
qed

section \<open>Dispatch on concrete Apps\<close>

subsection \<open>A failing normalization and a failing parse\<close>

lemma usageApp_stages:
  "checkShellCompleteFlag (App_setup usageApp) [''gin''] = Returns (False, [''gin''])"
  "x_flagSet normFailExt (AppName (App_setup usageApp)) (Flags (App_setup usageApp)) = Inr emptyFlagSet"
  "x_parseIter normFailExt emptyFlagSet (App_setup usageApp) [] False = (None, emptyFlagSet)"
  "x_normalizeFlags normFailExt (Flags (App_setup usageApp)) emptyFlagSet
     = (Some (NormalizeError ''cannot use two forms of the same flag''), emptyFlagSet)"
  "Writer (App_setup usageApp) = Some Stdout"
  by (simp_all add: setup_defs run_defs example_defs)

lemma Run_usageApp_parse_error:
  "fst (Run parseFailExt usageApp [''gin'', ''-x'']) =
     (Returns (Some (UserError ''usage'')),
      [EvOnUsageError (FlagParseError ''flag provided but not defined: -x'') False])"
  by (simp add: setup_defs run_defs example_defs)

theorem normalization_error_bypasses_OnUsageError_witness:
  "OnUsageError usageApp \<noteq> None
   \<and> fst (Run normFailExt usageApp [''gin'']) =
       (Returns (Some (NormalizeError ''cannot use two forms of the same flag'')),
        [EvWrite Stdout (''cannot use two forms of the same flag'' @ newline)])
   \<and> fst (Run parseFailExt usageApp [''gin'', ''-x'']) =
       (Returns (Some (UserError ''usage'')),
        [EvOnUsageError (FlagParseError ''flag provided but not defined: -x'') False])"
proof -
  have u: "OnUsageError usageApp \<noteq> None" by (simp add: usageApp_def)
  have n: "fst (Run normFailExt usageApp [''gin'']) =
       (Returns (Some (NormalizeError ''cannot use two forms of the same flag'')),
        [EvWrite Stdout (''cannot use two forms of the same flag'' @ newline)])"
    using normalization_error_bypasses_OnUsageError [OF usageApp_stages(1-4)] usageApp_stages(5)
    by simp
  show ?thesis using u n Run_usageApp_parse_error by simp
qed

subsection \<open>Run on the empty argument vector\<close>

theorem Run_empty_arguments_witness:
  "fst (Run plainExt hookApp []) = (Panicked, [])
   \<and> fst (Run flagSetFailExt completionApp []) = (Panicked, [])"
  using Run_empty_arguments [of plainExt hookApp] Run_empty_arguments [of flagSetFailExt completionApp]
  by (simp add: example_defs)

text \<open>
  Claim C10, as stated, fails: with completion off and a flag set that cannot be built, Run
  on the empty argument vector returns the error of flagSet and does not panic.
\<close>

theorem Run_empty_arguments_returns_flagSet_error:
  "\<not> EnableBashCompletion hookApp
   \<and> fst (Run flagSetFailExt hookApp []) =
       (Returns (Some (FlagSetError ''could not parse the environment value'')), [])"
  by (simp add: setup_defs run_defs example_defs)

subsection \<open>Run in completion mode\<close>

lemma completionApp_stages:
  "checkShellCompleteFlag (App_setup completionApp) [''gin'', ''--generate-bash-completion'']
     = Returns (True, [''gin''])"
  "x_flagSet plainExt (AppName (App_setup completionApp)) (Flags (App_setup completionApp)) = Inr emptyFlagSet"
  "x_parseIter plainExt emptyFlagSet (App_setup completionApp) [] True = (None, emptyFlagSet)"
  "x_normalizeFlags plainExt (Flags (App_setup completionApp)) emptyFlagSet = (None, emptyFlagSet)"
  "\<not> (Present (fs_args emptyFlagSet)
        \<and> command (App_setup completionApp) (First (fs_args emptyFlagSet)) \<noteq> None)"
  "BashComplete completionApp = Some (\<lambda>c. [''build'', ''run''])"
  by (simp_all add: setup_defs run_defs example_defs)

lemma Run_completionApp_build:
  "snd (fst (Run plainExt completionApp [''gin'', ''build'', ''--generate-bash-completion''])) =
     [EvBefore, EvCommandRun (buildCommand\<lparr>HelpName := ''gin build''\<rparr>), EvAfter]"
  by (simp add: setup_defs run_defs example_defs)

theorem completion_mode_witness:
  "fst (Run plainExt completionApp [''gin'', ''--generate-bash-completion''])
     = (Returns None, [EvBashComplete [''build'', ''run'']])
   \<and> snd (fst (Run plainExt completionApp [''gin'', ''build'', ''--generate-bash-completion''])) =
       [EvBefore, EvCommandRun (buildCommand\<lparr>HelpName := ''gin build''\<rparr>), EvAfter]"
proof -
  have "fst (Run plainExt completionApp [''gin'', ''--generate-bash-completion''])
     = (Returns None, [EvBashComplete [''build'', ''run'']])"
    using completion_mode [OF completionApp_stages(1-4)] completionApp_stages(5,6)
    by simp
  then show ?thesis using Run_completionApp_build by simp
qed

text \<open>
  Claim C7, as stated, fails twice: in completion mode with no matching command, a failing
  normalization makes Run return that error, not nil; and with a nil BashComplete handler
  Run returns nil and emits nothing.
\<close>

theorem completion_mode_normalization_error_or_no_handler:
  "fst (Run normFailExt completionApp [''gin'', ''--generate-bash-completion''])
     = (Returns (Some (NormalizeError ''cannot use two forms of the same flag'')),
        [EvWrite Stdout (''cannot use two forms of the same flag'' @ newline)])
   \<and> fst (Run plainExt (completionApp\<lparr>BashComplete := None\<rparr>) [''gin'', ''--generate-bash-completion''])
     = (Returns None, [])"
  by (simp add: setup_defs run_defs example_defs)

subsection \<open>Run with a required flag that is not supplied\<close>

lemma requiredApp_stages:
  "checkShellCompleteFlag (App_setup requiredApp) [''gin''] = Returns (False, [''gin''])"
  "x_flagSet plainExt (AppName (App_setup requiredApp)) (Flags (App_setup requiredApp)) = Inr emptyFlagSet"
  "x_parseIter plainExt emptyFlagSet (App_setup requiredApp) [] False = (None, emptyFlagSet)"
  "x_normalizeFlags plainExt (Flags (App_setup requiredApp)) emptyFlagSet = (None, emptyFlagSet)"
  "nameFlag \<in> set (Flags requiredApp)"
  "Required (GetSpec nameFlag)"
  "\<forall>k\<in>set (flagKeys nameFlag). \<not> IsSet (Context emptyFlagSet None False) k"
  by (simp_all add: setup_defs run_defs example_defs)

lemma requiredApp_missing:
  "\<not> fst (checkCompletions (App_setup requiredApp) (Context emptyFlagSet None False))"
  "map GetName (filter (flagMissing (Context emptyFlagSet None False)) (Flags (App_setup requiredApp)))
     = [''name, n'']"
  by (simp_all add: setup_defs run_defs example_defs)

theorem required_flag_missing_witness:
  "nameFlag \<in> set (Flags requiredApp) \<and> Required (GetSpec nameFlag)
   \<and> flagKeys nameFlag = [''name'', ''n'']
   \<and> fst (Run plainExt requiredApp [''gin'']) = (Returns (Some (RequiredFlagMissing [''name, n''])), [])"
proof -
  have "fst (Run plainExt requiredApp [''gin'']) = (Returns (Some (RequiredFlagMissing [''name, n''])), [])"
    using required_flag_missing [OF requiredApp_stages] requiredApp_missing by simp
  moreover have "flagKeys nameFlag = [''name'', ''n'']"
    by (simp add: run_defs example_defs zeroFlagSpec_def)
  ultimately show ?thesis using requiredApp_stages(5,6) by simp
qed

text \<open>
  Claim C4, as stated, fails: the required flag is not supplied, yet in completion mode Run
  returns nil, not a RequiredFlagMissing error.
\<close>

theorem required_flag_missing_in_completion_mode:
  "nameFlag \<in> set (Flags requiredCompletionApp) \<and> Required (GetSpec nameFlag)
   \<and> flagKeys nameFlag = [''name'', ''n'']
   \<and> fst (Run plainExt requiredCompletionApp [''gin'', ''--generate-bash-completion''])
       = (Returns None, [EvBashComplete [''build'', ''run'']])"
  by (simp add: setup_defs run_defs example_defs)

section \<open>What dispatch changes of the App\<close>







lemma setup_steps_HideHelp [simp]:
  "HideHelp (setup_help a) = HideHelp a"
  "HideHelp (setup_version a) = HideHelp a"
  "HideHelp (setup_categories a) = HideHelp a"
  "HideHelp (setup_sinks a) = HideHelp a"
  by (simp_all add: setup_help_def setup_version_def setup_categories_def setup_sinks_def
      appendFlag_def Let_def)











end
